theory Spec2Isabelle
  imports Main "HOL-Library.Word" "HOL-Library.Sublist"
begin

section \<open>Strings and POSIX paths\<close>

text \<open>
  Identifiers, commands and paths are Python \<open>str\<close> values; they are modelled as
  \<open>string\<close>. The helpers below are the \<open>str\<close> methods and the \<open>os.path\<close>
  (posixpath) functions that \<open>main.py\<close> calls.
\<close>

definition startswith :: "string \<Rightarrow> string \<Rightarrow> bool" where
  "startswith s p = (take (length p) s = p)"

definition endswith :: "string \<Rightarrow> string \<Rightarrow> bool" where
  "endswith s p = (length p \<le> length s \<and> drop (length s - length p) s = p)"

text \<open>\<open>s.lstrip('/')\<close> and \<open>s.rstrip('/')\<close>.\<close>

definition lstrip_sep :: "string \<Rightarrow> string" where
  "lstrip_sep s = dropWhile (\<lambda>c. c = CHR ''/'') s"

definition rstrip_sep :: "string \<Rightarrow> string" where
  "rstrip_sep s = rev (dropWhile (\<lambda>c. c = CHR ''/'') (rev s))"

text \<open>\<open>os.path.join(a, b)\<close> with two arguments.\<close>

definition os_path_join :: "string \<Rightarrow> string \<Rightarrow> string" where
  "os_path_join a b =
     (if startswith b ''/'' then b
      else if a = [] \<or> endswith a ''/'' then a @ b
      else a @ ''/'' @ b)"

text \<open>\<open>os.path.basename(p)\<close>: everything after the last separator.\<close>

definition os_path_basename :: "string \<Rightarrow> string" where
  "os_path_basename p = rev (takeWhile (\<lambda>c. c \<noteq> CHR ''/'') (rev p))"

text \<open>
  \<open>os.path.dirname(p)\<close>: everything up to and including the last separator, with the
  trailing separators removed unless the head consists of separators only.
\<close>

definition os_path_dirname :: "string \<Rightarrow> string" where
  "os_path_dirname p =
     (let head = rev (dropWhile (\<lambda>c. c \<noteq> CHR ''/'') (rev p))
      in if head \<noteq> [] \<and> head \<noteq> replicate (length head) (CHR ''/'')
         then rstrip_sep head else head)"

subsection \<open>Destination paths of the upload operations\<close>

text \<open>
  \<open>base_dir = f"/app/workspaces/{workspace_id}" if is_persistent else "/app"\<close>, where
  \<open>is_persistent = workspace_id is not None\<close>.
\<close>

definition base_dir :: "string option \<Rightarrow> string" where
  "base_dir workspace_id =
     (case workspace_id of None \<Rightarrow> ''/app'' | Some w \<Rightarrow> ''/app/workspaces/'' @ w)"

text \<open>
  The sanitisation shared by the three upload operations:
  \<open>if d.startswith('/'): d = d.lstrip('/')\<close>.
\<close>

definition strip_absolute :: "string \<Rightarrow> string" where
  "strip_absolute d = (if startswith d ''/'' then lstrip_sep d else d)"

text \<open>\<open>target_dir\<close> of \<open>write_file_sandbox\<close> and of \<open>copy_project\<close> (the same code).\<close>

definition write_target_dir :: "string option \<Rightarrow> string option \<Rightarrow> string" where
  "write_target_dir workspace_id dest_dir =
     (case dest_dir of
        None \<Rightarrow> base_dir workspace_id
      | Some d \<Rightarrow> os_path_join (base_dir workspace_id) (strip_absolute d))"

definition copy_project_target_dir :: "string option \<Rightarrow> string option \<Rightarrow> string" where
  "copy_project_target_dir workspace_id dest_dir =
     (case dest_dir of
        None \<Rightarrow> base_dir workspace_id
      | Some d \<Rightarrow> os_path_join (base_dir workspace_id) (strip_absolute d))"

text \<open>
  \<open>full_dest_path\<close> of \<open>copy_file\<close>: the destination defaults to the base name of the
  local file, is sanitised, and is appended to the base directory by an f-string.
\<close>

definition copy_file_full_dest_path :: "string option \<Rightarrow> string \<Rightarrow> string option \<Rightarrow> string" where
  "copy_file_full_dest_path workspace_id local_src_file dest_path =
     (let d = (case dest_path of None \<Rightarrow> os_path_basename local_src_file | Some d \<Rightarrow> d)
      in base_dir workspace_id @ ''/'' @ strip_absolute d)"

subsection \<open>What a path denotes inside the container\<close>

text \<open>
  A path is read component by component from the root: empty components and \<open>.\<close> are
  skipped, \<open>..\<close> steps to the parent (the root is its own parent), any other component
  steps into the named child. \<open>inside root p\<close> says that the directory denoted by \<open>root\<close>
  is an ancestor of (or equal to) what \<open>p\<close> denotes.
\<close>

fun split_path :: "string \<Rightarrow> string list" where
  "split_path [] = [[]]"
| "split_path (c # cs) =
     (if c = CHR ''/'' then [] # split_path cs
      else (case split_path cs of
              [] \<Rightarrow> [[c]]
            | w # ws \<Rightarrow> (c # w) # ws))"

definition walk :: "string list \<Rightarrow> string \<Rightarrow> string list" where
  "walk here seg =
     (if seg = [] \<or> seg = ''.'' then here
      else if seg = ''..'' then butlast here
      else here @ [seg])"

definition resolve :: "string \<Rightarrow> string list" where
  "resolve p = foldl walk [] (split_path p)"

definition inside :: "string \<Rightarrow> string \<Rightarrow> bool" where
  "inside root p = prefix (resolve root) (resolve p)"


text \<open>
  \<open>within_depth d comps\<close>: reading the components \<open>comps\<close> from a directory that lies
  \<open>d\<close> levels below some ancestor never steps above that ancestor, that is, every \<open>..\<close>
  is matched by an earlier named component or by one of the \<open>d\<close> levels.
\<close>

fun within_depth :: "nat \<Rightarrow> string list \<Rightarrow> bool" where
  "within_depth d [] = True"
| "within_depth d (c # cs) =
     (if c = [] \<or> c = ''.'' then within_depth d cs
      else if c = ''..'' then 0 < d \<and> within_depth (d - 1) cs
      else within_depth (Suc d) cs)"
section \<open>Text, bytes and archives\<close>

text \<open>
  \<open>bytes\<close> values are lists of 8-bit words; decoded text (\<open>str\<close> contents that come from
  or go to bytes) is a list of Unicode code points. \<open>utf8_encode\<close> is
  \<open>str.encode('utf-8')\<close> and \<open>utf8_decode\<close> is \<open>bytes.decode('utf-8')\<close>; \<open>None\<close> stands
  for \<open>UnicodeEncodeError\<close> (a lone surrogate) and \<open>UnicodeDecodeError\<close> (an ill-formed
  sequence).
\<close>

type_synonym bytes = "8 word list"
type_synonym unicode = "nat list"

definition utf8_encode_cp :: "nat \<Rightarrow> bytes option" where
  "utf8_encode_cp c =
     (if c < 0x80 then Some [of_nat c]
      else if c < 0x800 then Some [of_nat (0xC0 + c div 64), of_nat (0x80 + c mod 64)]
      else if 0xD800 \<le> c \<and> c \<le> 0xDFFF then None
      else if c < 0x10000 then
        Some [of_nat (0xE0 + c div 4096), of_nat (0x80 + c div 64 mod 64),
              of_nat (0x80 + c mod 64)]
      else if c < 0x110000 then
        Some [of_nat (0xF0 + c div 262144), of_nat (0x80 + c div 4096 mod 64),
              of_nat (0x80 + c div 64 mod 64), of_nat (0x80 + c mod 64)]
      else None)"

fun utf8_encode :: "unicode \<Rightarrow> bytes option" where
  "utf8_encode [] = Some []"
| "utf8_encode (c # cs) =
     (case utf8_encode_cp c of
        None \<Rightarrow> None
      | Some b \<Rightarrow> (case utf8_encode cs of None \<Rightarrow> None | Some bs \<Rightarrow> Some (b @ bs)))"

definition is_cont :: "8 word \<Rightarrow> bool" where
  "is_cont b = (0x80 \<le> b \<and> b \<le> 0xBF)"

definition low6 :: "8 word \<Rightarrow> nat" where
  "low6 b = unat b mod 64"

text \<open>The second byte of a three- and of a four-byte sequence has a narrower range
  after the lead bytes E0, ED, F0 and F4 (no overlong forms, no surrogates, nothing
  above U+10FFFF).\<close>

definition second3_ok :: "8 word \<Rightarrow> 8 word \<Rightarrow> bool" where
  "second3_ok b c =
     (if b = 0xE0 then 0xA0 \<le> c \<and> c \<le> 0xBF
      else if b = 0xED then 0x80 \<le> c \<and> c \<le> 0x9F
      else is_cont c)"

definition second4_ok :: "8 word \<Rightarrow> 8 word \<Rightarrow> bool" where
  "second4_ok b c =
     (if b = 0xF0 then 0x90 \<le> c \<and> c \<le> 0xBF
      else if b = 0xF4 then 0x80 \<le> c \<and> c \<le> 0x8F
      else is_cont c)"

fun utf8_decode :: "bytes \<Rightarrow> unicode option" where
  "utf8_decode [] = Some []"
| "utf8_decode (b # bs) =
     (if b < 0x80 then map_option (Cons (unat b)) (utf8_decode bs)
      else if 0xC2 \<le> b \<and> b \<le> 0xDF then
        (case bs of
           c1 # r \<Rightarrow>
             if is_cont c1
             then map_option (Cons (unat b mod 32 * 64 + low6 c1)) (utf8_decode r)
             else None
         | _ \<Rightarrow> None)
      else if 0xE0 \<le> b \<and> b \<le> 0xEF then
        (case bs of
           c1 # c2 # r \<Rightarrow>
             if second3_ok b c1 \<and> is_cont c2
             then map_option (Cons (unat b mod 16 * 4096 + low6 c1 * 64 + low6 c2))
                    (utf8_decode r)
             else None
         | _ \<Rightarrow> None)
      else if 0xF0 \<le> b \<and> b \<le> 0xF4 then
        (case bs of
           c1 # c2 # c3 # r \<Rightarrow>
             if second4_ok b c1 \<and> is_cont c2 \<and> is_cont c3
             then map_option
                    (Cons (unat b mod 8 * 262144 + low6 c1 * 4096 + low6 c2 * 64 + low6 c3))
                    (utf8_decode r)
             else None
         | _ \<Rightarrow> None)
      else None)"

text \<open>The code points of an ASCII literal.\<close>

definition text_of :: "string \<Rightarrow> unicode" where
  "text_of s = map of_char s"

text \<open>
  A tar stream is modelled by the list of its members: name, directory flag, size,
  modification time and payload (what \<open>tarfile\<close> writes and reads back).
\<close>

record tar_member =
  m_name :: string
  m_isdir :: bool
  m_size :: nat
  m_mtime :: nat
  m_data :: bytes

type_synonym archive = "tar_member list"

section \<open>The container engine\<close>

text \<open>
  Modelled from the spec: the container engine client (the \<open>docker\<close> package) is not part
  of the repository; section 4.5 of the specification lists the capabilities the program
  uses: get by identity or name, create-and-start, start, stop with timeout, remove,
  execute a command with demultiplexed output, put-archive and get-archive, each of which
  can fail with \<open>NotFound\<close> or another engine error.

  The engine is a state machine. Its state holds the containers (identity, name, status
  and the regular files of the container's file system, keyed by resolved path), two
  oracles and the log of all calls with their replies. The oracle \<open>fault\<close> lets any call
  raise, depending on the history; the oracle \<open>shell\<close> gives exit code and output of an
  executed command, depending on the history. What a command does to the container's
  files is not modelled, and directories exist implicitly; everything proved for all
  engine states holds for every behaviour of the two oracles.
\<close>

datatype exn =
    NotFound
  | APIError
  | UnicodeDecodeError
  | UnicodeEncodeError
  | IndexError
  | AttributeError
  | FileNotFoundError
  | IsADirectoryError
  | NotADirectoryError

datatype call =
    Get string
  | Exec string "string list"
  | Start string
  | Stop string nat
  | Remove string bool
  | PutArchive string string archive
  | GetArchive string string
  | Pull string
  | Run string "string option" bool

datatype reply =
    Raised exn
  | Handle string string
  | Ran int "bytes option" "bytes option"
  | Stream archive
  | Done

record container =
  cid :: string
  cname :: "string option"
  cstatus :: string
  cfiles :: "(string list \<times> bytes) list"

record engine =
  containers :: "container list"
  fault :: "(call \<times> reply) list \<Rightarrow> call \<Rightarrow> exn option"
  shell :: "(call \<times> reply) list \<Rightarrow> string \<Rightarrow> string list \<Rightarrow> int \<times> bytes option \<times> bytes option"
  new_id :: "container list \<Rightarrow> string"
  history :: "(call \<times> reply) list"

text \<open>A container is addressed by its identity or by its name.\<close>

definition find_container :: "string \<Rightarrow> container list \<Rightarrow> container option" where
  "find_container key cs = find (\<lambda>c. cid c = key \<or> cname c = Some key) cs"

definition set_status :: "string \<Rightarrow> string \<Rightarrow> container list \<Rightarrow> container list" where
  "set_status i st cs = map (\<lambda>c. if cid c = i then c\<lparr>cstatus := st\<rparr> else c) cs"

text \<open>
  The members of an uploaded archive are stored below the target directory; a directory
  member adds no file. A downloaded archive holds the file at the path as its only member,
  or, when the path denotes a directory, the directory member followed by the files below
  it.
\<close>

definition extract_into :: "string \<Rightarrow> archive \<Rightarrow> (string list \<times> bytes) list \<Rightarrow> (string list \<times> bytes) list" where
  "extract_into dir ar fs =
     foldl (\<lambda>acc m. if m_isdir m then acc
                     else (foldl walk (resolve dir) (split_path (m_name m)), m_data m) # acc)
       fs ar"

definition file_member :: "string \<Rightarrow> bytes \<Rightarrow> tar_member" where
  "file_member name b =
     \<lparr>m_name = name, m_isdir = False, m_size = length b, m_mtime = 0, m_data = b\<rparr>"

definition dir_member :: "string \<Rightarrow> tar_member" where
  "dir_member name =
     \<lparr>m_name = name, m_isdir = True, m_size = 0, m_mtime = 0, m_data = []\<rparr>"

definition join_path :: "string list \<Rightarrow> string" where
  "join_path ks = concat (map (\<lambda>k. ''/'' @ k) ks)"

definition archive_of :: "string \<Rightarrow> (string list \<times> bytes) list \<Rightarrow> archive option" where
  "archive_of path fs =
     (let k = resolve path
      in case map_of fs k of
           Some b \<Rightarrow> Some [file_member (os_path_basename (join_path k)) b]
         | None \<Rightarrow>
             (let below = filter (\<lambda>(k', b). strict_prefix k k') fs
              in if below = [] then None
                 else Some (dir_member (os_path_basename (join_path k))
                            # map (\<lambda>(k', b). file_member (join_path (drop (length k - 1) k')) b)
                                below)))"

text \<open>What the engine does on a call that the fault oracle lets through.\<close>

fun respond :: "call \<Rightarrow> engine \<Rightarrow> reply \<times> engine" where
  "respond (Get key) e =
     (case find_container key (containers e) of
        None \<Rightarrow> (Raised NotFound, e)
      | Some c \<Rightarrow> (Handle (cid c) (cstatus c), e))"
| "respond (Exec i argv) e =
     (case find_container i (containers e) of
        None \<Rightarrow> (Raised NotFound, e)
      | Some c \<Rightarrow>
          (case shell e (history e) (cid c) argv of
             (code, out, err) \<Rightarrow> (Ran code out err, e)))"
| "respond (Start i) e =
     (case find_container i (containers e) of
        None \<Rightarrow> (Raised NotFound, e)
      | Some c \<Rightarrow> (Done, e\<lparr>containers := set_status (cid c) ''running'' (containers e)\<rparr>))"
| "respond (Stop i t) e =
     (case find_container i (containers e) of
        None \<Rightarrow> (Raised NotFound, e)
      | Some c \<Rightarrow> (Done, e\<lparr>containers := set_status (cid c) ''exited'' (containers e)\<rparr>))"
| "respond (Remove i v) e =
     (case find_container i (containers e) of
        None \<Rightarrow> (Raised NotFound, e)
      | Some c \<Rightarrow> (Done, e\<lparr>containers := filter (\<lambda>c'. cid c' \<noteq> cid c) (containers e)\<rparr>))"
| "respond (PutArchive i dir ar) e =
     (case find_container i (containers e) of
        None \<Rightarrow> (Raised NotFound, e)
      | Some c \<Rightarrow>
          (Done, e\<lparr>containers :=
                     map (\<lambda>c'. if cid c' = cid c
                                then c'\<lparr>cfiles := extract_into dir ar (cfiles c')\<rparr> else c')
                       (containers e)\<rparr>))"
| "respond (GetArchive i path) e =
     (case find_container i (containers e) of
        None \<Rightarrow> (Raised NotFound, e)
      | Some c \<Rightarrow>
          (case archive_of path (cfiles c) of
             None \<Rightarrow> (Raised NotFound, e)
           | Some ar \<Rightarrow> (Stream ar, e)))"
| "respond (Pull img) e = (Done, e)"
| "respond (Run img name gpu) e =
     (if name \<noteq> None \<and> (\<exists>c \<in> set (containers e). cname c = name) then (Raised APIError, e)
      else (let i = new_id e (containers e)
            in (Handle i ''created'',
                e\<lparr>containers := containers e
                     @ [\<lparr>cid = i, cname = name, cstatus = ''running'', cfiles = []\<rparr>]\<rparr>)))"

text \<open>Every call is logged with its reply; the fault oracle is asked first.\<close>

definition invoke :: "call \<Rightarrow> engine \<Rightarrow> reply \<times> engine" where
  "invoke c e =
     (case (case fault e (history e) c of
              Some x \<Rightarrow> (Raised x, e)
            | None \<Rightarrow> respond c e) of
        (r, e') \<Rightarrow> (r, e'\<lparr>history := history e @ [(c, r)]\<rparr>))"

section \<open>The program state\<close>

text \<open>
  The module-level variables \<open>docker_available\<close> and \<open>persistent_container_id\<close>, the engine
  behind \<open>docker_client\<close>, and the local file system (regular files with their content,
  and directories).
\<close>

record state =
  docker_available :: bool
  persistent_container_id :: "string option"
  docker :: engine
  local_files :: "(string \<times> bytes) list"
  local_dirs :: "string list"

definition engine_call :: "call \<Rightarrow> state \<Rightarrow> reply \<times> state" where
  "engine_call c s = (case invoke c (docker s) of (r, e) \<Rightarrow> (r, s\<lparr>docker := e\<rparr>))"

text \<open>
  The methods of the client, typed: \<open>Inl\<close> is a raised exception. A reply of the wrong
  kind cannot occur (see \<open>respond\<close>); it is mapped to \<open>APIError\<close>.
\<close>

record handle =
  h_id :: string
  h_status :: string

definition containers_get :: "string \<Rightarrow> state \<Rightarrow> (exn + handle) \<times> state" where
  "containers_get key s =
     (case engine_call (Get key) s of
        (Handle i st, s') \<Rightarrow> (Inr \<lparr>h_id = i, h_status = st\<rparr>, s')
      | (Raised x, s') \<Rightarrow> (Inl x, s')
      | (_, s') \<Rightarrow> (Inl APIError, s'))"

definition exec_run :: "string \<Rightarrow> string list \<Rightarrow> state \<Rightarrow> (exn + int \<times> bytes option \<times> bytes option) \<times> state" where
  "exec_run i argv s =
     (case engine_call (Exec i argv) s of
        (Ran code out err, s') \<Rightarrow> (Inr (code, out, err), s')
      | (Raised x, s') \<Rightarrow> (Inl x, s')
      | (_, s') \<Rightarrow> (Inl APIError, s'))"

definition unit_call :: "call \<Rightarrow> state \<Rightarrow> (exn + unit) \<times> state" where
  "unit_call c s =
     (case engine_call c s of
        (Done, s') \<Rightarrow> (Inr (), s')
      | (Raised x, s') \<Rightarrow> (Inl x, s')
      | (_, s') \<Rightarrow> (Inl APIError, s'))"

definition get_archive :: "string \<Rightarrow> string \<Rightarrow> state \<Rightarrow> (exn + archive) \<times> state" where
  "get_archive i path s =
     (case engine_call (GetArchive i path) s of
        (Stream ar, s') \<Rightarrow> (Inr ar, s')
      | (Raised x, s') \<Rightarrow> (Inl x, s')
      | (_, s') \<Rightarrow> (Inl APIError, s'))"

definition containers_run :: "string \<Rightarrow> string option \<Rightarrow> bool \<Rightarrow> state \<Rightarrow> (exn + handle) \<times> state" where
  "containers_run img name gpu s =
     (case engine_call (Run img name gpu) s of
        (Handle i st, s') \<Rightarrow> (Inr \<lparr>h_id = i, h_status = st\<rparr>, s')
      | (Raised x, s') \<Rightarrow> (Inl x, s')
      | (_, s') \<Rightarrow> (Inl APIError, s'))"

section \<open>The operations of \<open>main.py\<close>\<close>

text \<open>
  Every tool returns a dictionary with \<open>success\<close>; \<open>Failure\<close> is the dictionary with
  \<open>success = False\<close> and an \<open>error\<close> message (and nothing else), \<open>Success\<close> the one with
  \<open>success = True\<close> and the payload. The messages are modelled by what they report.
\<close>

datatype error =
    DockerUnavailable
  | OperationFailed exn
  | LocalFileMissing string

datatype 'a result = Failure error | Success 'a

record command_result =
  command :: string
  exit_code :: int
  stdout :: unicode
  stderr :: unicode
  success :: bool

subsection \<open>\<open>sandbox_exec\<close>\<close>

text \<open>
  The bootstrap before the first command: \<open>which pip\<close>, and when it prints nothing,
  \<open>apt-get update\<close> and \<open>apt-get install\<close>. Any exception is swallowed (and ends the
  bootstrap).
\<close>

definition no_output :: "bytes option \<Rightarrow> bytes option \<Rightarrow> bool" where
  "no_output out err =
     ((out = None \<or> out = Some []) \<and> (err = None \<or> err = Some []))"

definition bootstrap :: "string \<Rightarrow> state \<Rightarrow> state" where
  "bootstrap i s =
     (case exec_run i [''which'', ''pip''] s of
        (Inl x, s1) \<Rightarrow> s1
      | (Inr (code, out, err), s1) \<Rightarrow>
          if no_output out err then
            (case exec_run i [''apt-get'', ''update''] s1 of
               (Inl x, s2) \<Rightarrow> s2
             | (Inr r, s2) \<Rightarrow>
                 snd (exec_run i [''apt-get'', ''install'', ''-y'', ''python3-pip''] s2))
          else s1)"

text \<open>The dependency-install step before a command that starts with \<open>python\<close>.\<close>

definition install_packages :: "string \<Rightarrow> state \<Rightarrow> state" where
  "install_packages i s =
     (case exec_run i [''pip'', ''install'', ''--upgrade'', ''pip''] s of
        (Inl x, s1) \<Rightarrow> s1
      | (Inr r, s1) \<Rightarrow>
          snd (exec_run i [''pip'', ''install'', ''-r'', ''requirements.txt''] s1))"

text \<open>\<open>cmd_to_run\<close>: the command, prefixed with a change of directory in a workspace.\<close>

definition cmd_to_run :: "string option \<Rightarrow> string \<Rightarrow> string" where
  "cmd_to_run workspace_id cmd =
     (case workspace_id of
        None \<Rightarrow> cmd
      | Some w \<Rightarrow> ''cd '' @ (''/app/workspaces/'' @ w) @ '' && '' @ cmd)"

text \<open>\<open>x.decode('utf-8') if x else ""\<close>.\<close>

definition decode_output :: "bytes option \<Rightarrow> unicode option" where
  "decode_output x =
     (case x of None \<Rightarrow> Some [] | Some b \<Rightarrow> if b = [] then Some [] else utf8_decode b)"

text \<open>
  The loop over the commands, with the list of results so far. An exception of the
  command's \<open>exec_run\<close> or of the decoding leaves the loop (and the function).
\<close>

fun run_commands ::
  "string \<Rightarrow> string option \<Rightarrow> string list \<Rightarrow> command_result list \<Rightarrow> state
   \<Rightarrow> (exn + command_result list) \<times> state" where
  "run_commands i workspace_id [] results s = (Inr results, s)"
| "run_commands i workspace_id (cmd # rest) results s =
     (let c = cmd_to_run workspace_id cmd;
          s1 = (if startswith c ''python'' then install_packages i s else s)
      in case exec_run i [''sh'', ''-c'', c] s1 of
           (Inl x, s2) \<Rightarrow> (Inl x, s2)
         | (Inr (code, out, err), s2) \<Rightarrow>
             (case decode_output out of
                None \<Rightarrow> (Inl UnicodeDecodeError, s2)
              | Some so \<Rightarrow>
                  (case decode_output err of
                     None \<Rightarrow> (Inl UnicodeDecodeError, s2)
                   | Some se \<Rightarrow>
                       (let results' = results @
                              [\<lparr>command = cmd, exit_code = code, stdout = so, stderr = se,
                                success = (code = 0)\<rparr>]
                        in if code \<noteq> 0 then (Inr results', s2)
                           else run_commands i workspace_id rest results' s2))))"

definition sandbox_exec ::
  "string \<Rightarrow> string list \<Rightarrow> string option \<Rightarrow> state \<Rightarrow> command_result list result \<times> state" where
  "sandbox_exec container_id commands workspace_id s =
     (if \<not> docker_available s then (Failure DockerUnavailable, s)
      else case containers_get container_id s of
             (Inl x, s1) \<Rightarrow> (Failure (OperationFailed x), s1)
           | (Inr h, s1) \<Rightarrow>
               (case run_commands (h_id h) workspace_id commands [] (bootstrap (h_id h) s1) of
                  (Inl x, s2) \<Rightarrow> (Failure (OperationFailed x), s2)
                | (Inr results, s2) \<Rightarrow> (Success results, s2)))"

subsection \<open>\<open>sandbox_stop\<close> and \<open>clean_workspace\<close>\<close>

definition sandbox_stop :: "string \<Rightarrow> bool \<Rightarrow> state \<Rightarrow> unit result \<times> state" where
  "sandbox_stop container_id is_persistent s =
     (if \<not> docker_available s then (Failure DockerUnavailable, s)
      else if is_persistent \<or> Some container_id = persistent_container_id s
      then (Success (), s)
      else case containers_get container_id s of
             (Inl x, s1) \<Rightarrow> (Failure (OperationFailed x), s1)
           | (Inr h, s1) \<Rightarrow>
               (case unit_call (Stop (h_id h) 10) s1 of
                  (Inl x, s2) \<Rightarrow> (Failure (OperationFailed x), s2)
                | (Inr u, s2) \<Rightarrow>
                    (case unit_call (Remove (h_id h) True) s2 of
                       (Inl x, s3) \<Rightarrow> (Failure (OperationFailed x), s3)
                     | (Inr u', s3) \<Rightarrow> (Success (), s3))))"


subsection \<open>\<open>ensure_persistent_container\<close> and \<open>sandbox_initialize\<close>\<close>

definition DEFAULT_IMAGE :: string where
  "DEFAULT_IMAGE = ''python:3.9-slim''"

definition PERSISTENT_CONTAINER_NAME :: string where
  "PERSISTENT_CONTAINER_NAME = ''code_sandbox_persistent''"

text \<open>
  The third block of \<open>ensure_persistent_container\<close>: pull the image, create the named
  container (with the GPU runtime), cache its identity, create \<open>/app/workspaces\<close>. Any
  exception is raised again.
\<close>

definition create_persistent :: "state \<Rightarrow> (exn + string) \<times> state" where
  "create_persistent s =
     (case unit_call (Pull DEFAULT_IMAGE) s of
        (Inl x, s1) \<Rightarrow> (Inl x, s1)
      | (Inr u, s1) \<Rightarrow>
          (case containers_run DEFAULT_IMAGE (Some PERSISTENT_CONTAINER_NAME) True s1 of
             (Inl x, s2) \<Rightarrow> (Inl x, s2)
           | (Inr h, s2) \<Rightarrow>
               (let s3 = s2\<lparr>persistent_container_id := Some (h_id h)\<rparr>
                in case exec_run (h_id h) [''mkdir'', ''-p'', ''/app/workspaces''] s3 of
                     (Inl x, s4) \<Rightarrow> (Inl x, s4)
                   | (Inr r, s4) \<Rightarrow> (Inr (h_id h), s4))))"

text \<open>
  The second block: look the container up by its fixed name, start it unless it is
  running, cache its identity. \<open>NotFound\<close> (of the lookup or of the start) leads to the
  third block, any other exception leaves the function.
\<close>

definition lookup_by_name :: "state \<Rightarrow> (exn + string) \<times> state" where
  "lookup_by_name s =
     (case containers_get PERSISTENT_CONTAINER_NAME s of
        (Inl x, s1) \<Rightarrow> if x = NotFound then create_persistent s1 else (Inl x, s1)
      | (Inr existing, s1) \<Rightarrow>
          (case (if h_status existing \<noteq> ''running'' then unit_call (Start (h_id existing)) s1
                 else (Inr (), s1)) of
             (Inl x, s2) \<Rightarrow> if x = NotFound then create_persistent s2 else (Inl x, s2)
           | (Inr u, s2) \<Rightarrow>
               (Inr (h_id existing), s2\<lparr>persistent_container_id := Some (h_id existing)\<rparr>)))"

text \<open>
  The first block: a cached identity is returned when its container is running; when the
  container is gone the cache is cleared.
\<close>

definition ensure_persistent_container :: "state \<Rightarrow> (exn + string) \<times> state" where
  "ensure_persistent_container s =
     (case persistent_container_id s of
        None \<Rightarrow> lookup_by_name s
      | Some i \<Rightarrow>
          (case containers_get i s of
             (Inl x, s1) \<Rightarrow>
               if x = NotFound then lookup_by_name (s1\<lparr>persistent_container_id := None\<rparr>)
               else (Inl x, s1)
           | (Inr h, s1) \<Rightarrow>
               if h_status h = ''running'' then (Inr i, s1) else lookup_by_name s1))"

text \<open>
  The payload of a successful \<open>sandbox_initialize\<close> (the keys \<open>container_id\<close>,
  \<open>workspace_id\<close>, \<open>workspace_path\<close> and \<open>mode\<close>). The argument \<open>uuid4\<close> gives the
  identifiers that \<open>uuid.uuid4()\<close> returns, in the order in which they are drawn.
\<close>

record environment =
  env_container_id :: string
  env_workspace_id :: "string option"
  env_workspace_path :: "string option"
  env_mode :: string

definition persistent_environment :: "string \<Rightarrow> string \<Rightarrow> environment" where
  "persistent_environment i w =
     \<lparr>env_container_id = i, env_workspace_id = Some w,
      env_workspace_path = Some (''/app/workspaces/'' @ w), env_mode = ''persistent''\<rparr>"

text \<open>
  The \<open>except NotFound\<close> handler of the persistent branch; \<open>n\<close> identifiers have been
  drawn before.
\<close>

definition use_ensured :: "(nat \<Rightarrow> string) \<Rightarrow> nat \<Rightarrow> state \<Rightarrow> (exn + environment) \<times> state" where
  "use_ensured uuid4 n s =
     (case ensure_persistent_container s of
        (Inl x, s1) \<Rightarrow> (Inl x, s1)
      | (Inr i, s1) \<Rightarrow>
          (case containers_get i s1 of
             (Inl x, s2) \<Rightarrow> (Inl x, s2)
           | (Inr h, s2) \<Rightarrow>
               (case exec_run (h_id h) [''mkdir'', ''-p'', ''/app/workspaces/'' @ uuid4 n] s2 of
                  (Inl x, s3) \<Rightarrow> (Inl x, s3)
                | (Inr r, s3) \<Rightarrow> (Inr (persistent_environment i (uuid4 n)), s3))))"

text \<open>
  The persistent branch: the container that carries the fixed name is used as it is;
  \<open>NotFound\<close> (of the lookup or of the directory creation) leads to the handler.
\<close>

definition use_persistent_container ::
  "(nat \<Rightarrow> string) \<Rightarrow> state \<Rightarrow> (exn + environment) \<times> state" where
  "use_persistent_container uuid4 s =
     (case containers_get PERSISTENT_CONTAINER_NAME s of
        (Inl x, s1) \<Rightarrow> if x = NotFound then use_ensured uuid4 0 s1 else (Inl x, s1)
      | (Inr existing, s1) \<Rightarrow>
          (case exec_run (h_id existing) [''mkdir'', ''-p'', ''/app/workspaces/'' @ uuid4 0] s1 of
             (Inl x, s2) \<Rightarrow> if x = NotFound then use_ensured uuid4 1 s2 else (Inl x, s2)
           | (Inr r, s2) \<Rightarrow> (Inr (persistent_environment (h_id existing) (uuid4 0)), s2)))"

definition standalone :: "string \<Rightarrow> state \<Rightarrow> (exn + environment) \<times> state" where
  "standalone img s =
     (case unit_call (Pull img) s of
        (Inl x, s1) \<Rightarrow> (Inl x, s1)
      | (Inr u, s1) \<Rightarrow>
          (case containers_run img None False s1 of
             (Inl x, s2) \<Rightarrow> (Inl x, s2)
           | (Inr h, s2) \<Rightarrow>
               (Inr \<lparr>env_container_id = h_id h, env_workspace_id = None,
                     env_workspace_path = None, env_mode = ''standalone''\<rparr>, s2)))"

definition sandbox_initialize ::
  "string \<Rightarrow> bool \<Rightarrow> (nat \<Rightarrow> string) \<Rightarrow> state \<Rightarrow> environment result \<times> state" where
  "sandbox_initialize img use_persistent uuid4 s =
     (if \<not> docker_available s then (Failure DockerUnavailable, s)
      else case (if use_persistent then use_persistent_container uuid4 s
                 else standalone img s) of
             (Inl x, s') \<Rightarrow> (Failure (OperationFailed x), s')
           | (Inr env, s') \<Rightarrow> (Success env, s'))"

subsection \<open>The local file system\<close>

text \<open>
  Local paths are taken literally (two spellings of one path are two paths). A regular
  file is an entry of \<open>local_files\<close>, a directory an entry of \<open>local_dirs\<close>; the
  current directory (\<open>.\<close>, and the empty path of \<open>os.path.dirname\<close>) and its parent
  \<open>..\<close> always exist.
\<close>

definition os_path_exists :: "string \<Rightarrow> state \<Rightarrow> bool" where
  "os_path_exists p s =
     (map_of (local_files s) p \<noteq> None \<or> p \<in> set (local_dirs s) \<or> p = ''.'' \<or> p = ''..'')"

text \<open>The proper ancestors of a path, nearest first: \<open>a/b\<close> and \<open>a\<close> for \<open>a/b/c\<close>.\<close>

fun ancestors :: "nat \<Rightarrow> string \<Rightarrow> string list" where
  "ancestors 0 p = []"
| "ancestors (Suc n) p =
     (let d = os_path_dirname p
      in if d = [] \<or> d = p then [] else d # ancestors n d)"

text \<open>
  \<open>os.makedirs(p)\<close> for a path that does not exist: creates the path and its missing
  ancestors; fails when an ancestor is a regular file.
\<close>

definition makedirs :: "string \<Rightarrow> state \<Rightarrow> exn + state" where
  "makedirs p s =
     (if \<exists>a \<in> set (ancestors (length p) p). map_of (local_files s) a \<noteq> None
      then Inl NotADirectoryError
      else Inr (s\<lparr>local_dirs := local_dirs s
                    @ filter (\<lambda>a. a \<notin> set (local_dirs s)) (rev (p # ancestors (length p) p))\<rparr>))"

text \<open>
  \<open>open(p, 'wb')\<close> followed by one \<open>write\<close> and the close: the file is created or
  truncated when it is opened.
\<close>

definition open_wb :: "string \<Rightarrow> state \<Rightarrow> exn + state" where
  "open_wb p s =
     (if p = [] then Inl FileNotFoundError
      else if p \<in> set (local_dirs s) \<or> p = ''.'' \<or> p = ''..'' \<or> endswith p ''/''
      then Inl IsADirectoryError
      else if os_path_dirname p \<noteq> [] \<and> os_path_dirname p \<noteq> ''/''
              \<and> os_path_dirname p \<notin> set (local_dirs s)
      then Inl (if map_of (local_files s) (os_path_dirname p) \<noteq> None then NotADirectoryError
                else FileNotFoundError)
      else Inr (s\<lparr>local_files := (p, []) # filter (\<lambda>(q, b). q \<noteq> p) (local_files s)\<rparr>))"

definition write_local :: "string \<Rightarrow> bytes \<Rightarrow> state \<Rightarrow> state" where
  "write_local p b s = s\<lparr>local_files := (p, b) # filter (\<lambda>(q, b'). q \<noteq> p) (local_files s)\<rparr>"

definition os_path_getsize :: "string \<Rightarrow> state \<Rightarrow> nat" where
  "os_path_getsize p s = (case map_of (local_files s) p of Some b \<Rightarrow> length b | None \<Rightarrow> 0)"

text \<open>
  \<open>tar.add(name, arcname)\<close> for an existing path: a regular file becomes one member, a
  directory becomes its member followed by the regular files below it. Modification
  times of local files are not modelled.
\<close>

definition tar_add :: "string \<Rightarrow> string \<Rightarrow> state \<Rightarrow> archive" where
  "tar_add name arcname s =
     (case map_of (local_files s) name of
        Some b \<Rightarrow> [file_member (lstrip_sep arcname) b]
      | None \<Rightarrow>
          dir_member (lstrip_sep arcname)
          # map (\<lambda>(q, b). file_member (lstrip_sep arcname @ drop (length name) q) b)
              (filter (\<lambda>(q, b). startswith q (name @ ''/'')) (local_files s)))"

subsection \<open>\<open>write_file_sandbox\<close>, \<open>copy_file\<close> and \<open>copy_file_from_sandbox\<close>\<close>

text \<open>The argument \<open>now\<close> is what \<open>time.time()\<close> returns.\<close>

definition write_file_sandbox ::
  "string \<Rightarrow> string \<Rightarrow> unicode \<Rightarrow> string option \<Rightarrow> string option \<Rightarrow> nat \<Rightarrow> state
   \<Rightarrow> string result \<times> state" where
  "write_file_sandbox container_id file_name file_contents workspace_id dest_dir now s =
     (if \<not> docker_available s then (Failure DockerUnavailable, s)
      else case containers_get container_id s of
             (Inl x, s1) \<Rightarrow> (Failure (OperationFailed x), s1)
           | (Inr h, s1) \<Rightarrow>
               (let target_dir = write_target_dir workspace_id dest_dir
                in case exec_run (h_id h) [''sh'', ''-c'', ''mkdir -p '' @ target_dir] s1 of
                     (Inl x, s2) \<Rightarrow> (Failure (OperationFailed x), s2)
                   | (Inr r, s2) \<Rightarrow>
                       (let target_dir' = (if endswith target_dir ''/'' then butlast target_dir
                                           else target_dir);
                            file_path = target_dir' @ ''/'' @ file_name
                        in case utf8_encode file_contents of
                             None \<Rightarrow> (Failure (OperationFailed UnicodeEncodeError), s2)
                           | Some file_data \<Rightarrow>
                               (case unit_call
                                       (PutArchive (h_id h) target_dir'
                                          [\<lparr>m_name = file_name, m_isdir = False,
                                            m_size = length file_data, m_mtime = now,
                                            m_data = file_data\<rparr>]) s2 of
                                  (Inl x, s3) \<Rightarrow> (Failure (OperationFailed x), s3)
                                | (Inr u, s3) \<Rightarrow> (Success file_path, s3)))))"

definition copy_file ::
  "string \<Rightarrow> string \<Rightarrow> string option \<Rightarrow> string option \<Rightarrow> state \<Rightarrow> string result \<times> state" where
  "copy_file container_id local_src_file workspace_id dest_path s =
     (if \<not> docker_available s then (Failure DockerUnavailable, s)
      else case containers_get container_id s of
             (Inl x, s1) \<Rightarrow> (Failure (OperationFailed x), s1)
           | (Inr h, s1) \<Rightarrow>
               if \<not> os_path_exists local_src_file s1
               then (Failure (LocalFileMissing local_src_file), s1)
               else
                 (let full_dest_path = copy_file_full_dest_path workspace_id local_src_file dest_path;
                      dest_dir = os_path_dirname full_dest_path
                  in case (if dest_dir \<noteq> []
                           then (case exec_run (h_id h) [''sh'', ''-c'', ''mkdir -p '' @ dest_dir] s1 of
                                   (Inl x, s2) \<Rightarrow> (Inl x, s2)
                                 | (Inr r, s2) \<Rightarrow> (Inr (), s2))
                           else (Inr (), s1)) of
                       (Inl x, s2) \<Rightarrow> (Failure (OperationFailed x), s2)
                     | (Inr u, s2) \<Rightarrow>
                         (case unit_call
                                 (PutArchive (h_id h) (if dest_dir = [] then ''/'' else dest_dir)
                                    (tar_add local_src_file (os_path_basename full_dest_path) s2))
                                 s2 of
                            (Inl x, s3) \<Rightarrow> (Failure (OperationFailed x), s3)
                          | (Inr u', s3) \<Rightarrow> (Success full_dest_path, s3))))"

text \<open>
  The file is opened for writing before the member is read, so a first member that is a
  directory leaves an empty local file behind (\<open>extractfile\<close> returns \<open>None\<close>).
\<close>

definition copy_file_from_sandbox ::
  "string \<Rightarrow> string \<Rightarrow> string option \<Rightarrow> string option \<Rightarrow> state
   \<Rightarrow> (string \<times> nat) result \<times> state" where
  "copy_file_from_sandbox container_id container_src_path workspace_id local_dest_path s =
     (if \<not> docker_available s then (Failure DockerUnavailable, s)
      else case containers_get container_id s of
             (Inl x, s1) \<Rightarrow> (Failure (OperationFailed x), s1)
           | (Inr h, s1) \<Rightarrow>
               (let src = (case workspace_id of
                             None \<Rightarrow> container_src_path
                           | Some w \<Rightarrow>
                               if \<not> startswith container_src_path ''/''
                               then ''/app/workspaces/'' @ w @ ''/'' @ container_src_path
                               else container_src_path);
                    dest = (case local_dest_path of
                              None \<Rightarrow> os_path_basename src
                            | Some p \<Rightarrow> p)
                in case get_archive (h_id h) src s1 of
                     (Inl x, s2) \<Rightarrow> (Failure (OperationFailed x), s2)
                   | (Inr ar, s2) \<Rightarrow>
                       (let parent_dir = os_path_dirname dest
                        in case (if parent_dir \<noteq> [] \<and> \<not> os_path_exists parent_dir s2
                                 then makedirs parent_dir s2 else Inr s2) of
                             Inl x \<Rightarrow> (Failure (OperationFailed x), s2)
                           | Inr s3 \<Rightarrow>
                               (case ar of
                                  [] \<Rightarrow> (Failure (OperationFailed IndexError), s3)
                                | member # rest \<Rightarrow>
                                    (case open_wb dest s3 of
                                       Inl x \<Rightarrow> (Failure (OperationFailed x), s3)
                                     | Inr s4 \<Rightarrow>
                                         if m_isdir member
                                         then (Failure (OperationFailed AttributeError), s4)
                                         else (let s5 = write_local dest (m_data member) s4
                                               in (Success (dest, os_path_getsize dest s5), s5)))))))"

section \<open>Observing the engine calls of an operation\<close>

text \<open>
  \<open>new_calls s s'\<close> are the engine calls (with their replies) made between the states
  \<open>s\<close> and \<open>s'\<close>. \<open>shell_calls\<close> selects the calls that run a command through
  \<open>sh -c\<close> (the commands of a batch and the directory creations); \<open>is_pip_install\<close>
  recognises the two calls of the dependency-install step.
\<close>

definition new_calls :: "state \<Rightarrow> state \<Rightarrow> (call \<times> reply) list" where
  "new_calls s s' = drop (length (history (docker s))) (history (docker s'))"

fun shell_of :: "call \<Rightarrow> string option" where
  "shell_of (Exec i argv) =
     (case argv of
        [a, b, c] \<Rightarrow> if a = ''sh'' \<and> b = ''-c'' then Some c else None
      | _ \<Rightarrow> None)"
| "shell_of _ = None"

definition shell_calls :: "(call \<times> reply) list \<Rightarrow> (string \<times> reply) list" where
  "shell_calls h = List.map_filter (\<lambda>(c, r). map_option (\<lambda>x. (x, r)) (shell_of c)) h"

fun is_pip_install :: "call \<Rightarrow> bool" where
  "is_pip_install (Exec i argv) = (take 2 argv = [''pip'', ''install''])"
| "is_pip_install _ = False"

text \<open>
  A command of a batch ends the batch with an exception when its engine call raises or
  when its output is not valid UTF-8.
\<close>

fun exec_broken :: "string \<times> reply \<Rightarrow> bool" where
  "exec_broken (c, Ran code out err) = (decode_output out = None \<or> decode_output err = None)"
| "exec_broken (c, r) = True"

text \<open>A result records what the engine replied to its command.\<close>

fun records :: "string option \<Rightarrow> command_result \<Rightarrow> string \<times> reply \<Rightarrow> bool" where
  "records w r (c, Ran code out err) =
     (c = cmd_to_run w (command r) \<and> exit_code r = code
      \<and> decode_output out = Some (stdout r) \<and> decode_output err = Some (stderr r)
      \<and> success r = (code = 0))"
| "records w r (c, rep) = False"

text \<open>
  \<open>extends s s' h\<close>: from \<open>s\<close> to \<open>s'\<close> the engine calls \<open>h\<close> were made and the variables of
  the program and the local files are unchanged. \<open>quiet h\<close>: only \<open>exec_run\<close> calls, none
  through \<open>sh -c\<close>.
\<close>

definition extends :: "state \<Rightarrow> state \<Rightarrow> (call \<times> reply) list \<Rightarrow> bool" where
  "extends s s' h =
     (history (docker s') = history (docker s) @ h
      \<and> docker_available s' = docker_available s
      \<and> persistent_container_id s' = persistent_container_id s
      \<and> local_files s' = local_files s \<and> local_dirs s' = local_dirs s)"

definition quiet :: "(call \<times> reply) list \<Rightarrow> bool" where
  "quiet h = (shell_calls h = [] \<and> (\<forall>cr \<in> set h. \<exists>i argv. fst cr = Exec i argv))"

definition no_pip :: "(call \<times> reply) list \<Rightarrow> bool" where
  "no_pip h = (filter (\<lambda>cr. is_pip_install (fst cr)) h = [])"

text \<open>The results \<open>new\<close> of a batch over the commands \<open>cmds\<close> that made the calls \<open>h\<close>.\<close>

definition batch_ok ::
  "string option \<Rightarrow> string list \<Rightarrow> command_result list \<Rightarrow> (call \<times> reply) list \<Rightarrow> bool" where
  "batch_ok w cmds new h =
     (length new \<le> length cmds
      \<and> map command new = take (length new) cmds
      \<and> list_all2 (records w) new (shell_calls h)
      \<and> (\<forall>r \<in> set (butlast new). exit_code r = 0)
      \<and> (length new < length cmds \<longrightarrow> new \<noteq> [] \<and> exit_code (last new) \<noteq> 0)
      \<and> (\<forall>cr \<in> set h. \<exists>i argv. fst cr = Exec i argv)
      \<and> (w \<noteq> None \<longrightarrow> no_pip h))"

definition batch_broken :: "string option \<Rightarrow> exn \<Rightarrow> (call \<times> reply) list \<Rightarrow> bool" where
  "batch_broken w x h =
     (shell_calls h \<noteq> []
      \<and> (snd (last (shell_calls h)) = Raised x
          \<or> x = UnicodeDecodeError \<and> exec_broken (last (shell_calls h))
             \<and> (\<exists>code out err. snd (last (shell_calls h)) = Ran code out err))
      \<and> (\<forall>cr \<in> set h. \<exists>i argv. fst cr = Exec i argv)
      \<and> (w \<noteq> None \<longrightarrow> no_pip h))"

section \<open>Concrete states\<close>

text \<open>
  An engine with one running container \<open>c1\<close> in which no call fails; the command
  \<open>false\<close> exits with status 1, every other command with status 0, and nothing is
  printed.
\<close>

definition plain_shell ::
  "(call \<times> reply) list \<Rightarrow> string \<Rightarrow> string list \<Rightarrow> int \<times> bytes option \<times> bytes option" where
  "plain_shell h i argv =
     (if argv = [''sh'', ''-c'', ''false''] then (1, None, None) else (0, None, None))"

definition no_fault :: "(call \<times> reply) list \<Rightarrow> call \<Rightarrow> exn option" where
  "no_fault h c = None"

definition one_container :: "container list" where
  "one_container = [\<lparr>cid = ''c1'', cname = None, cstatus = ''running'', cfiles = []\<rparr>]"

definition fixed_id :: "container list \<Rightarrow> string" where
  "fixed_id cs = ''c2''"

definition plain_state :: state where
  "plain_state =
     \<lparr>docker_available = True, persistent_container_id = None,
      docker = \<lparr>containers = one_container, fault = no_fault, shell = plain_shell,
                new_id = fixed_id, history = []\<rparr>,
      local_files = [], local_dirs = []\<rparr>"

text \<open>The same, but every command prints the single byte FF, which is not UTF-8.\<close>

definition binary_shell ::
  "(call \<times> reply) list \<Rightarrow> string \<Rightarrow> string list \<Rightarrow> int \<times> bytes option \<times> bytes option" where
  "binary_shell h i argv = (0, Some [0xFF], None)"

definition binary_state :: state where
  "binary_state =
     \<lparr>docker_available = True, persistent_container_id = None,
      docker = \<lparr>containers = one_container, fault = no_fault, shell = binary_shell,
                new_id = fixed_id, history = []\<rparr>,
      local_files = [], local_dirs = []\<rparr>"




text \<open>
  An engine whose only container carries the fixed name of the persistent container and
  has exited; nothing is cached.
\<close>

definition stopped_container :: "container list" where
  "stopped_container =
     [\<lparr>cid = ''p1'', cname = Some ''code_sandbox_persistent'', cstatus = ''exited'',
       cfiles = []\<rparr>]"

definition stopped_state :: state where
  "stopped_state =
     \<lparr>docker_available = True, persistent_container_id = None,
      docker = \<lparr>containers = stopped_container, fault = no_fault, shell = plain_shell,
                new_id = fixed_id, history = []\<rparr>,
      local_files = [], local_dirs = []\<rparr>"

definition first_workspace :: "nat \<Rightarrow> string" where
  "first_workspace n = ''w1''"

text \<open>The same, with an engine that refuses to run a command in the exited container.\<close>

definition refuse_exec :: "(call \<times> reply) list \<Rightarrow> call \<Rightarrow> exn option" where
  "refuse_exec h c = (case c of Exec i argv \<Rightarrow> Some APIError | _ \<Rightarrow> None)"

definition refusing_state :: state where
  "refusing_state =
     \<lparr>docker_available = True, persistent_container_id = None,
      docker = \<lparr>containers = stopped_container, fault = refuse_exec, shell = plain_shell,
                new_id = fixed_id, history = []\<rparr>,
      local_files = [], local_dirs = []\<rparr>"
section \<open>Path resolution never leaves the base directory\<close>

lemma split_path_nonempty: "split_path s \<noteq> []"
  by (induction s) (auto split: list.splits)

lemma split_path_append_sep:
  "split_path (a @ CHR ''/'' # b) = split_path a @ split_path b"
proof (induction a)
  case Nil
  show ?case by simp
next
  case (Cons c a)
  show ?case
  proof (cases "split_path a")
    case Nil
    then show ?thesis using split_path_nonempty [of a] by simp
  next
    case (Cons w ws)
    then show ?thesis using Cons.IH by simp
  qed
qed

lemma resolve_append_sep:
  "resolve (a @ CHR ''/'' # b) = foldl walk (resolve a) (split_path b)"
  by (simp add: resolve_def split_path_append_sep)

lemma endswith_sepD:
  assumes "endswith a ''/''"
  shows "\<exists>a'. a = a' @ ''/''"
proof -
  from assms have len: "1 \<le> length a" and d: "drop (length a - 1) a = ''/''"
    by (simp_all add: endswith_def)
  have "a = take (length a - 1) a @ drop (length a - 1) a" by simp
  with d show ?thesis by metis
qed

lemma resolve_trailing_sep: "resolve (a @ ''/'') = resolve a"
  using resolve_append_sep [of a "[]"] by (simp add: walk_def)

lemma not_startswith_lstrip_sep: "\<not> startswith (lstrip_sep d) ''/''"
  by (induction d) (simp_all add: lstrip_sep_def startswith_def)

lemma base_dir_nonempty: "base_dir w \<noteq> []"
  by (simp add: base_dir_def split: option.splits)

lemma walk_within_depth:
  "within_depth d comps \<Longrightarrow> d \<le> length here
     \<Longrightarrow> prefix (take (length here - d) here) (foldl walk here comps)"
proof (induction comps arbitrary: d here)
  case Nil
  show ?case by (simp add: take_is_prefix)
next
  case (Cons c comps)
  show ?case
  proof (cases "c = [] \<or> c = ''.''")
    case True
    with Cons.prems have "within_depth d comps" by auto
    from Cons.IH [OF this Cons.prems(2)] True show ?thesis by (auto simp: walk_def)
  next
    case skip: False
    show ?thesis
    proof (cases "c = ''..''")
      case True
      with Cons.prems have d: "0 < d" and r: "within_depth (d - 1) comps" by auto
      from d Cons.prems(2) have l: "d - 1 \<le> length (butlast here)" by simp
      from d Cons.prems(2) have n: "length (butlast here) - (d - 1) = length here - d" by simp
      have "take (length here - d) (butlast here) = take (length here - d) here"
        using d Cons.prems(2) by (simp add: butlast_conv_take min_def)
      with Cons.IH [OF r l] n True show ?thesis by (simp add: walk_def)
    next
      case False
      with skip Cons.prems have r: "within_depth (Suc d) comps" by auto
      from Cons.prems(2) have l: "Suc d \<le> length (here @ [c])" by simp
      from Cons.IH [OF r l] Cons.prems(2) skip False show ?thesis by (simp add: walk_def)
    qed
  qed
qed

lemma walk_within:
  "within_depth 0 comps \<Longrightarrow> prefix here (foldl walk here comps)"
  using walk_within_depth [of 0 comps here] by simp

lemma no_parent_within_depth:
  "''..'' \<notin> set comps \<Longrightarrow> within_depth d comps"
  by (induction comps arbitrary: d) auto

lemma within_depth_dropWhile_sep:
  "within_depth d (split_path (dropWhile (\<lambda>c. c = CHR ''/'') p)) = within_depth d (split_path p)"
  by (induction p) auto

lemma within_depth_lstrip_sep:
  "within_depth d (split_path (lstrip_sep p)) = within_depth d (split_path p)"
  by (simp add: lstrip_sep_def within_depth_dropWhile_sep)

lemma strip_absolute_lstrip_sep: "strip_absolute p = lstrip_sep p"
  by (cases p) (simp_all add: strip_absolute_def lstrip_sep_def startswith_def)

lemma inside_append_sep_within:
  "within_depth 0 (split_path b) \<Longrightarrow> inside a (a @ ''/'' @ b)"
  using resolve_append_sep [of a b] by (simp add: inside_def walk_within)

lemma inside_append_within:
  assumes "within_depth 0 (split_path b)" and "endswith a ''/''"
  shows "inside a (a @ b)"
proof -
  from assms(2) obtain a' where a: "a = a' @ ''/''" using endswith_sepD by blast
  have "resolve (a @ b) = foldl walk (resolve a') (split_path b)"
    using resolve_append_sep [of a' b] by (simp add: a)
  moreover have "resolve a = resolve a'"
    by (simp add: a resolve_trailing_sep)
  ultimately show ?thesis
    using assms(1) by (simp add: inside_def walk_within)
qed

lemma os_path_join_relative:
  "\<not> startswith b ''/'' \<Longrightarrow> a \<noteq> [] \<Longrightarrow>
     os_path_join a b = (if endswith a ''/'' then a @ b else a @ ''/'' @ b)"
  by (simp add: os_path_join_def)

text \<open>
  Claim C1, as stated: for every destination path \<open>p\<close> the resolved target never lies
  outside the base directory. This fails: only leading separators are stripped, so a
  \<open>..\<close> component survives and leads out of \<open>/app\<close>.
\<close>

theorem write_target_dir_escapes:
  "\<not> inside (base_dir None) (write_target_dir None (Some ''/../etc''))"
  by (simp add: inside_def resolve_def write_target_dir_def base_dir_def os_path_join_def
      strip_absolute_def lstrip_sep_def startswith_def endswith_def walk_def)

text \<open>
  Claim C1, amended: for every destination path \<open>p\<close>, each of the three upload operations
  strips the leading separators of \<open>p\<close> and appends what is left to the base directory
  (the working root, or the workspace root when a workspace id is given), with one
  separator in between (which \<open>os.path.join\<close> omits when the base already ends with
  one); nothing else is done to \<open>p\<close>. Whenever \<open>p\<close> never steps above its starting
  point (in particular when \<open>p\<close> has no \<open>..\<close> component), what the result denotes lies
  within the base directory, also when \<open>p\<close> begins with a separator.
\<close>

theorem destination_within_base:
  "write_target_dir w (Some p)
     = (if endswith (base_dir w) ''/'' then base_dir w @ lstrip_sep p
        else base_dir w @ ''/'' @ lstrip_sep p)
   \<and> copy_project_target_dir w (Some p)
     = (if endswith (base_dir w) ''/'' then base_dir w @ lstrip_sep p
        else base_dir w @ ''/'' @ lstrip_sep p)
   \<and> copy_file_full_dest_path w src (Some p) = base_dir w @ ''/'' @ lstrip_sep p
   \<and> \<not> startswith (lstrip_sep p) ''/''
   \<and> (''..'' \<notin> set (split_path p) \<longrightarrow> within_depth 0 (split_path p))
   \<and> (within_depth 0 (split_path p) \<longrightarrow>
        inside (base_dir w) (write_target_dir w (Some p))
      \<and> inside (base_dir w) (copy_project_target_dir w (Some p))
      \<and> inside (base_dir w) (copy_file_full_dest_path w src (Some p)))"
proof -
  have j: "os_path_join (base_dir w) (lstrip_sep p)
           = (if endswith (base_dir w) ''/'' then base_dir w @ lstrip_sep p
              else base_dir w @ ''/'' @ lstrip_sep p)"
    by (rule os_path_join_relative [OF not_startswith_lstrip_sep base_dir_nonempty])
  have e1: "write_target_dir w (Some p)
            = (if endswith (base_dir w) ''/'' then base_dir w @ lstrip_sep p
               else base_dir w @ ''/'' @ lstrip_sep p)"
    using j by (simp add: write_target_dir_def strip_absolute_lstrip_sep)
  have e2: "copy_project_target_dir w (Some p)
            = (if endswith (base_dir w) ''/'' then base_dir w @ lstrip_sep p
               else base_dir w @ ''/'' @ lstrip_sep p)"
    using j by (simp add: copy_project_target_dir_def strip_absolute_lstrip_sep)
  have e3: "copy_file_full_dest_path w src (Some p) = base_dir w @ ''/'' @ lstrip_sep p"
    by (simp add: copy_file_full_dest_path_def strip_absolute_lstrip_sep)
  have i: "inside (base_dir w) (write_target_dir w (Some p))
         \<and> inside (base_dir w) (copy_project_target_dir w (Some p))
         \<and> inside (base_dir w) (copy_file_full_dest_path w src (Some p))"
    if h: "within_depth 0 (split_path p)"
  proof -
    from h have n: "within_depth 0 (split_path (lstrip_sep p))"
      by (simp add: within_depth_lstrip_sep)
    have a: "inside (base_dir w) (base_dir w @ ''/'' @ lstrip_sep p)"
      by (rule inside_append_sep_within [OF n])
    have b: "inside (base_dir w) (base_dir w @ lstrip_sep p)" if "endswith (base_dir w) ''/''"
      by (rule inside_append_within [OF n that])
    from a b show ?thesis unfolding e1 e2 e3 by simp
  qed
  from e1 e2 e3 i not_startswith_lstrip_sep [of p] no_parent_within_depth [of "split_path p" 0]
  show ?thesis by blast
qed

theorem destination_within_base_witness:
  "within_depth 0 (split_path ''/etc/../passwd'')
   \<and> inside (base_dir (Some ''w1'')) (write_target_dir (Some ''w1'') (Some ''/etc/../passwd''))
   \<and> inside (base_dir (Some ''w1'')) (copy_project_target_dir (Some ''w1'') (Some ''/etc/../passwd''))
   \<and> inside (base_dir (Some ''w1'')) (copy_file_full_dest_path (Some ''w1'') ''x'' (Some ''/etc/../passwd''))
   \<and> write_target_dir (Some ''w1'') (Some ''/etc/../passwd'') = ''/app/workspaces/w1/etc/../passwd''"
proof -
  have h: "within_depth 0 (split_path ''/etc/../passwd'')" by simp
  have j: "\<not> endswith (base_dir (Some ''w1'')) ''/''"
    and k: "base_dir (Some ''w1'') @ ''/'' @ lstrip_sep ''/etc/../passwd''
            = ''/app/workspaces/w1/etc/../passwd''"
    by (simp_all add: base_dir_def lstrip_sep_def endswith_def)
  from h destination_within_base [of "Some ''w1''" "''/etc/../passwd''" "''x''"]
  have "inside (base_dir (Some ''w1'')) (write_target_dir (Some ''w1'') (Some ''/etc/../passwd''))"
    and "inside (base_dir (Some ''w1''))
           (copy_project_target_dir (Some ''w1'') (Some ''/etc/../passwd''))"
    and "inside (base_dir (Some ''w1''))
           (copy_file_full_dest_path (Some ''w1'') ''x'' (Some ''/etc/../passwd''))"
    and "write_target_dir (Some ''w1'') (Some ''/etc/../passwd'')
         = (if endswith (base_dir (Some ''w1'')) ''/''
            then base_dir (Some ''w1'') @ lstrip_sep ''/etc/../passwd''
            else base_dir (Some ''w1'') @ ''/'' @ lstrip_sep ''/etc/../passwd'')"
    by blast+
  with h j k show ?thesis by simp
qed

section \<open>The engine log and the command batch\<close>

lemma respond_history: "history (snd (respond c e)) = history e"
  by (cases c) (auto split: option.splits prod.splits simp: Let_def)

lemma invoke_history:
  "invoke c e = (r, e') \<Longrightarrow> history e' = history e @ [(c, r)]"
  using respond_history [of c e]
  by (auto simp: invoke_def split: option.splits prod.splits)

lemma engine_call_history:
  "engine_call c s = (r, s') \<Longrightarrow> history (docker s') = history (docker s) @ [(c, r)]"
  by (auto simp: engine_call_def split: prod.splits dest: invoke_history)

lemma engine_call_frame:
  "engine_call c s = (r, s') \<Longrightarrow>
     docker_available s' = docker_available s
     \<and> persistent_container_id s' = persistent_container_id s
     \<and> local_files s' = local_files s \<and> local_dirs s' = local_dirs s"
  by (auto simp: engine_call_def split: prod.splits)

lemma respond_Exec_kind:
  "respond (Exec i argv) e = (r, e') \<Longrightarrow> (\<exists>x. r = Raised x) \<or> (\<exists>code out err. r = Ran code out err)"
  by (auto split: option.splits prod.splits)

lemma invoke_Exec_kind:
  "invoke (Exec i argv) e = (r, e') \<Longrightarrow> (\<exists>x. r = Raised x) \<or> (\<exists>code out err. r = Ran code out err)"
  by (auto simp: invoke_def split: option.splits prod.splits)

lemma exec_run_Inl:
  "exec_run i argv s = (Inl x, s') \<Longrightarrow>
     history (docker s') = history (docker s) @ [(Exec i argv, Raised x)]"
proof -
  assume a: "exec_run i argv s = (Inl x, s')"
  obtain r s1 where ec: "engine_call (Exec i argv) s = (r, s1)" by (cases "engine_call (Exec i argv) s")
  then obtain e1 where "invoke (Exec i argv) (docker s) = (r, e1)"
    by (auto simp: engine_call_def split: prod.splits)
  from invoke_Exec_kind [OF this] a ec engine_call_history [OF ec]
  show ?thesis by (auto simp: exec_run_def)
qed

lemma exec_run_Inr:
  "exec_run i argv s = (Inr (code, out, err), s') \<Longrightarrow>
     history (docker s') = history (docker s) @ [(Exec i argv, Ran code out err)]"
proof -
  assume a: "exec_run i argv s = (Inr (code, out, err), s')"
  obtain r s1 where ec: "engine_call (Exec i argv) s = (r, s1)" by (cases "engine_call (Exec i argv) s")
  with a engine_call_history [OF ec] show ?thesis
    by (cases r) (auto simp: exec_run_def)
qed

lemma exec_run_frame:
  "exec_run i argv s = (res, s') \<Longrightarrow>
     docker_available s' = docker_available s
     \<and> persistent_container_id s' = persistent_container_id s
     \<and> local_files s' = local_files s \<and> local_dirs s' = local_dirs s"
proof -
  assume a: "exec_run i argv s = (res, s')"
  obtain r s1 where ec: "engine_call (Exec i argv) s = (r, s1)" by (cases "engine_call (Exec i argv) s")
  with a engine_call_frame [OF ec] show ?thesis
    by (cases r) (auto simp: exec_run_def)
qed

lemma shell_calls_append: "shell_calls (a @ b) = shell_calls a @ shell_calls b"
  by (simp add: shell_calls_def map_filter_def)

lemma shell_calls_Nil: "shell_calls [] = []"
  by (simp add: shell_calls_def map_filter_def)

lemma shell_calls_single_sh:
  "shell_calls [(Exec i [''sh'', ''-c'', c], r)] = [(c, r)]"
  by (simp add: shell_calls_def map_filter_def)

lemma new_calls_self: "new_calls s s = []"
  by (simp add: new_calls_def)

lemma new_calls_step:
  "history (docker s') = history (docker s) @ h \<Longrightarrow> new_calls s s' = h"
  by (simp add: new_calls_def)

lemma extends_refl: "extends s s []"
  by (simp add: extends_def)

lemma extends_trans: "extends s s1 h1 \<Longrightarrow> extends s1 s2 h2 \<Longrightarrow> extends s s2 (h1 @ h2)"
  by (simp add: extends_def)

lemma exec_run_extends_Inl:
  "exec_run i argv s = (Inl x, s') \<Longrightarrow> extends s s' [(Exec i argv, Raised x)]"
  using exec_run_Inl exec_run_frame by (simp add: extends_def)

lemma exec_run_extends_Inr:
  "exec_run i argv s = (Inr (code, out, err), s') \<Longrightarrow> extends s s' [(Exec i argv, Ran code out err)]"
  using exec_run_Inr exec_run_frame by (simp add: extends_def)

lemma exec_run_extends:
  "exec_run i argv s = (res, s') \<Longrightarrow> \<exists>r. extends s s' [(Exec i argv, r)]"
  by (cases res) (auto dest: exec_run_extends_Inl exec_run_extends_Inr)

lemma bootstrap_extends:
  "\<exists>h. extends s (bootstrap i s) h \<and> quiet h \<and> no_pip h"
proof -
  obtain r1 s1 where e1: "exec_run i [''which'', ''pip''] s = (r1, s1)"
    by (cases "exec_run i [''which'', ''pip''] s")
  obtain r2 s2 where e2: "exec_run i [''apt-get'', ''update''] s1 = (r2, s2)"
    by (cases "exec_run i [''apt-get'', ''update''] s1")
  obtain r3 s3 where e3: "exec_run i [''apt-get'', ''install'', ''-y'', ''python3-pip''] s2 = (r3, s3)"
    by (cases "exec_run i [''apt-get'', ''install'', ''-y'', ''python3-pip''] s2")
  from exec_run_extends [OF e1] obtain p1 where x1: "extends s s1 [(Exec i [''which'', ''pip''], p1)]" by blast
  from exec_run_extends [OF e2] obtain p2 where x2: "extends s1 s2 [(Exec i [''apt-get'', ''update''], p2)]" by blast
  from exec_run_extends [OF e3] obtain p3 where x3: "extends s2 s3 [(Exec i [''apt-get'', ''install'', ''-y'', ''python3-pip''], p3)]" by blast
  have q1: "quiet [(Exec i [''which'', ''pip''], p1)] \<and> no_pip [(Exec i [''which'', ''pip''], p1)]"
    by (simp add: quiet_def no_pip_def shell_calls_def map_filter_def)
  have q2: "quiet ([(Exec i [''which'', ''pip''], p1)] @ [(Exec i [''apt-get'', ''update''], p2)])
    \<and> no_pip ([(Exec i [''which'', ''pip''], p1)] @ [(Exec i [''apt-get'', ''update''], p2)])"
    by (simp add: quiet_def no_pip_def shell_calls_def map_filter_def)
  have q3: "quiet (([(Exec i [''which'', ''pip''], p1)] @ [(Exec i [''apt-get'', ''update''], p2)])
       @ [(Exec i [''apt-get'', ''install'', ''-y'', ''python3-pip''], p3)])
    \<and> no_pip (([(Exec i [''which'', ''pip''], p1)] @ [(Exec i [''apt-get'', ''update''], p2)])
       @ [(Exec i [''apt-get'', ''install'', ''-y'', ''python3-pip''], p3)])"
    by (simp add: quiet_def no_pip_def shell_calls_def map_filter_def)
  have "bootstrap i s = s1 \<or> bootstrap i s = s2 \<or> bootstrap i s = s3"
    using e1 e2 e3 by (auto simp: bootstrap_def split: sum.splits prod.splits)
  then show ?thesis
    using x1 q1 extends_trans [OF x1 x2] q2 extends_trans [OF extends_trans [OF x1 x2] x3] q3
    by blast
qed


lemma install_packages_extends:
  "\<exists>h. extends s (install_packages i s) h \<and> quiet h"
proof -
  obtain r1 s1 where e1: "exec_run i [''pip'', ''install'', ''--upgrade'', ''pip''] s = (r1, s1)"
    by (cases "exec_run i [''pip'', ''install'', ''--upgrade'', ''pip''] s")
  obtain r2 s2 where e2: "exec_run i [''pip'', ''install'', ''-r'', ''requirements.txt''] s1 = (r2, s2)"
    by (cases "exec_run i [''pip'', ''install'', ''-r'', ''requirements.txt''] s1")
  from exec_run_extends [OF e1] obtain p1
    where x1: "extends s s1 [(Exec i [''pip'', ''install'', ''--upgrade'', ''pip''], p1)]" by blast
  from exec_run_extends [OF e2] obtain p2
    where x2: "extends s1 s2 [(Exec i [''pip'', ''install'', ''-r'', ''requirements.txt''], p2)]" by blast
  have q1: "quiet [(Exec i [''pip'', ''install'', ''--upgrade'', ''pip''], p1)]"
    by (simp add: quiet_def shell_calls_def map_filter_def)
  have q2: "quiet ([(Exec i [''pip'', ''install'', ''--upgrade'', ''pip''], p1)]
                   @ [(Exec i [''pip'', ''install'', ''-r'', ''requirements.txt''], p2)])"
    by (simp add: quiet_def shell_calls_def map_filter_def)
  have "install_packages i s = s1 \<or> install_packages i s = s2"
    using e1 e2 by (auto simp: install_packages_def split: sum.splits prod.splits)
  then show ?thesis
    using x1 q1 extends_trans [OF x1 x2] q2 by blast
qed

lemma not_python_in_workspace: "\<not> startswith (cmd_to_run (Some w) cmd) ''python''"
  by (simp add: cmd_to_run_def startswith_def)

lemma shell_calls_Cons_sh:
  "shell_calls ((Exec i [''sh'', ''-c'', c], r) # h) = (c, r) # shell_calls h"
  by (simp add: shell_calls_def map_filter_def)

lemma quiet_append: "quiet a \<Longrightarrow> quiet b \<Longrightarrow> quiet (a @ b)"
  by (auto simp: quiet_def shell_calls_append)

lemma no_pip_append: "no_pip a \<Longrightarrow> no_pip b \<Longrightarrow> no_pip (a @ b)"
  by (simp add: no_pip_def)

lemma no_pip_sh: "no_pip [(Exec i [''sh'', ''-c'', c], r)]"
  by (simp add: no_pip_def)

lemma no_pip_Nil: "no_pip []"
  by (simp add: no_pip_def)

lemma quiet_Nil: "quiet []"
  by (simp add: quiet_def shell_calls_Nil)

text \<open>The state in which a command is executed: after the optional install step.\<close>

lemma before_command:
  "\<exists>h0. extends s (if startswith (cmd_to_run w cmd) ''python'' then install_packages i s else s) h0
        \<and> quiet h0 \<and> (w \<noteq> None \<longrightarrow> h0 = [])"
proof (cases w)
  case None
  then show ?thesis
    using install_packages_extends [of s i] extends_refl [of s] quiet_Nil by auto
next
  case (Some a)
  then show ?thesis
    using extends_refl [of s] quiet_Nil by (auto simp: not_python_in_workspace)
qed

lemma batch_ok_Nil: "batch_ok w [] [] []"
  by (simp add: batch_ok_def shell_calls_Nil no_pip_Nil)

lemma batch_ok_stop:
  assumes "quiet h0" and "w \<noteq> None \<longrightarrow> h0 = []" and "code \<noteq> 0"
    and "decode_output out = Some so" and "decode_output err = Some se"
  shows "batch_ok w (cmd # rest)
           [\<lparr>command = cmd, exit_code = code, stdout = so, stderr = se, success = (code = 0)\<rparr>]
           (h0 @ [(Exec i [''sh'', ''-c'', cmd_to_run w cmd], Ran code out err)])"
  using assms
  by (auto simp: batch_ok_def quiet_def shell_calls_append shell_calls_single_sh
      no_pip_sh no_pip_Nil)

lemma batch_ok_step:
  assumes "quiet h0" and "w \<noteq> None \<longrightarrow> h0 = []"
    and "decode_output out = Some so" and "decode_output err = Some se"
    and "batch_ok w rest new h"
  shows "batch_ok w (cmd # rest)
           (\<lparr>command = cmd, exit_code = 0, stdout = so, stderr = se, success = True\<rparr> # new)
           ((h0 @ [(Exec i [''sh'', ''-c'', cmd_to_run w cmd], Ran 0 out err)]) @ h)"
proof -
  have sc: "shell_calls ((h0 @ [(Exec i [''sh'', ''-c'', cmd_to_run w cmd], Ran 0 out err)]) @ h)
            = (cmd_to_run w cmd, Ran 0 out err) # shell_calls h"
    using assms(1) by (simp add: quiet_def shell_calls_append shell_calls_Cons_sh)
  have np: "w \<noteq> None \<longrightarrow> no_pip ((h0 @ [(Exec i [''sh'', ''-c'', cmd_to_run w cmd], Ran 0 out err)]) @ h)"
    using assms(2,5) by (auto simp: batch_ok_def no_pip_def)
  have ex: "\<forall>cr \<in> set ((h0 @ [(Exec i [''sh'', ''-c'', cmd_to_run w cmd], Ran 0 out err)]) @ h).
              \<exists>i argv. fst cr = Exec i argv"
    using assms(1,5) by (auto simp: batch_ok_def quiet_def)
  have bl: "\<forall>r \<in> set (butlast (\<lparr>command = cmd, exit_code = 0, stdout = so, stderr = se, success = True\<rparr> # new)).
              exit_code r = 0"
    using assms(5) by (auto simp: batch_ok_def)
  have rest: "length new \<le> length rest" "map command new = take (length new) rest"
    "list_all2 (records w) new (shell_calls h)"
    "length new < length rest \<longrightarrow> new \<noteq> [] \<and> exit_code (last new) \<noteq> 0"
    using assms(5) by (simp_all add: batch_ok_def)
  show ?thesis
    unfolding batch_ok_def sc
    using np ex bl rest assms(3,4) by simp
qed

lemma batch_broken_raise:
  assumes "quiet h0" and "w \<noteq> None \<longrightarrow> h0 = []"
  shows "batch_broken w x (h0 @ [(Exec i [''sh'', ''-c'', c], Raised x)])"
  using assms
  by (auto simp: batch_broken_def quiet_def shell_calls_append shell_calls_single_sh
      no_pip_sh no_pip_Nil)

lemma batch_broken_decode:
  assumes "quiet h0" and "w \<noteq> None \<longrightarrow> h0 = []"
    and "decode_output out = None \<or> decode_output err = None"
  shows "batch_broken w UnicodeDecodeError (h0 @ [(Exec i [''sh'', ''-c'', c], Ran code out err)])"
  using assms
  by (auto simp: batch_broken_def quiet_def shell_calls_append shell_calls_single_sh
      no_pip_sh no_pip_Nil)

lemma batch_broken_later:
  assumes "quiet h0" and "w \<noteq> None \<longrightarrow> h0 = []" and "batch_broken w x h"
  shows "batch_broken w x ((h0 @ [(Exec i [''sh'', ''-c'', c], Ran code out err)]) @ h)"
proof -
  have sc: "shell_calls ((h0 @ [(Exec i [''sh'', ''-c'', c], Ran code out err)]) @ h)
            = (c, Ran code out err) # shell_calls h"
    using assms(1) by (simp add: quiet_def shell_calls_append shell_calls_Cons_sh)
  have ne: "shell_calls h \<noteq> []" using assms(3) by (simp add: batch_broken_def)
  have np: "w \<noteq> None \<longrightarrow> no_pip ((h0 @ [(Exec i [''sh'', ''-c'', c], Ran code out err)]) @ h)"
    using assms(2,3) by (auto simp: batch_broken_def no_pip_def)
  have ex: "\<forall>cr \<in> set ((h0 @ [(Exec i [''sh'', ''-c'', c], Ran code out err)]) @ h).
              \<exists>i argv. fst cr = Exec i argv"
    using assms(1,3) by (auto simp: batch_broken_def quiet_def)
  show ?thesis
    unfolding batch_broken_def sc
    using ne np ex assms(3) by (simp add: batch_broken_def)
qed

lemma run_commands_spec:
  "run_commands i w cmds acc s = (res, s') \<Longrightarrow>
     \<exists>h. extends s s' h
        \<and> (case res of
             Inr rs \<Rightarrow> (\<exists>new. rs = acc @ new \<and> batch_ok w cmds new h)
           | Inl x \<Rightarrow> batch_broken w x h)"
proof (induction cmds arbitrary: acc s)
  case Nil
  then have "res = Inr acc" and "s' = s" by simp_all
  then show ?case
    using extends_refl [of s] batch_ok_Nil [of w] by auto
next
  case (Cons cmd rest)
  define c where "c = cmd_to_run w cmd"
  define s1 where "s1 = (if startswith c ''python'' then install_packages i s else s)"
  obtain h0 where h0: "extends s s1 h0" and q0: "quiet h0" and w0: "w \<noteq> None \<longrightarrow> h0 = []"
    using before_command [of s w cmd i] unfolding s1_def c_def by blast
  obtain r s2 where ex: "exec_run i [''sh'', ''-c'', c] s1 = (r, s2)"
    by (cases "exec_run i [''sh'', ''-c'', c] s1")
  show ?case
  proof (cases r)
    case (Inl x)
    have "res = Inl x" and "s' = s2"
      using Cons.prems ex Inl by (simp_all add: Let_def c_def [symmetric] s1_def [symmetric])
    moreover have "extends s s2 (h0 @ [(Exec i [''sh'', ''-c'', c], Raised x)])"
      using extends_trans [OF h0 exec_run_extends_Inl] ex Inl by simp
    moreover have "batch_broken w x (h0 @ [(Exec i [''sh'', ''-c'', c], Raised x)])"
      by (rule batch_broken_raise [OF q0 w0])
    ultimately show ?thesis by auto
  next
    case (Inr t)
    obtain code out err where t: "t = (code, out, err)" by (cases t)
    have ex': "exec_run i [''sh'', ''-c'', c] s1 = (Inr (code, out, err), s2)"
      using ex Inr t by simp
    have x2: "extends s s2 (h0 @ [(Exec i [''sh'', ''-c'', c], Ran code out err)])"
      using extends_trans [OF h0 exec_run_extends_Inr [OF ex']] .
    show ?thesis
    proof (cases "decode_output out = None \<or> decode_output err = None")
      case True
      have "res = Inl UnicodeDecodeError" and "s' = s2"
        using Cons.prems ex' True
        by (auto simp: Let_def c_def [symmetric] s1_def [symmetric] split: option.splits)
      moreover have "batch_broken w UnicodeDecodeError
                       (h0 @ [(Exec i [''sh'', ''-c'', c], Ran code out err)])"
        by (rule batch_broken_decode [OF q0 w0 True])
      ultimately show ?thesis using x2 by auto
    next
      case False
      then obtain so se where so: "decode_output out = Some so" and se: "decode_output err = Some se"
        by auto
      define cr where "cr = \<lparr>command = cmd, exit_code = code, stdout = so, stderr = se,
                              success = (code = 0)\<rparr>"
      show ?thesis
      proof (cases "code = 0")
        case False
        have "res = Inr (acc @ [cr])" and "s' = s2"
          using Cons.prems ex' so se False
          by (simp_all add: Let_def c_def [symmetric] s1_def [symmetric] cr_def)
        moreover have "batch_ok w (cmd # rest) [cr]
                         (h0 @ [(Exec i [''sh'', ''-c'', c], Ran code out err)])"
          unfolding cr_def c_def by (rule batch_ok_stop [OF q0 w0 False so se])
        ultimately show ?thesis using x2 by auto
      next
        case True
        have rec: "run_commands i w rest (acc @ [cr]) s2 = (res, s')"
          using Cons.prems ex' so se True
          by (simp add: Let_def c_def [symmetric] s1_def [symmetric] cr_def)
        from Cons.IH [OF rec] obtain h where
          xh: "extends s2 s' h" and
          ch: "case res of Inr rs \<Rightarrow> (\<exists>new. rs = (acc @ [cr]) @ new \<and> batch_ok w rest new h)
               | Inl x \<Rightarrow> batch_broken w x h"
          by blast
        have xt: "extends s s' ((h0 @ [(Exec i [''sh'', ''-c'', c], Ran code out err)]) @ h)"
          by (rule extends_trans [OF x2 xh])
        show ?thesis
        proof (cases res)
          case (Inl x)
          with ch have "batch_broken w x h" by simp
          then have "batch_broken w x ((h0 @ [(Exec i [''sh'', ''-c'', c], Ran code out err)]) @ h)"
            by (rule batch_broken_later [OF q0 w0])
          with xt Inl show ?thesis by auto
        next
          case (Inr rs)
          with ch obtain new where rs: "rs = (acc @ [cr]) @ new" and bo: "batch_ok w rest new h"
            by auto
          have "batch_ok w (cmd # rest) (cr # new)
                  ((h0 @ [(Exec i [''sh'', ''-c'', c], Ran code out err)]) @ h)"
            using batch_ok_step [OF q0 w0 so se bo, of cmd i] True
            by (simp add: cr_def c_def)
          moreover have "rs = acc @ (cr # new)" using rs by simp
          ultimately show ?thesis using xt Inr by auto
        qed
      qed
    qed
  qed
qed

lemma invoke_Get_kind:
  "invoke (Get key) e = (r, e') \<Longrightarrow> (\<exists>x. r = Raised x) \<or> (\<exists>i st. r = Handle i st)"
  by (auto simp: invoke_def split: option.splits prod.splits)

lemma engine_call_extends: "engine_call c s = (r, s') \<Longrightarrow> extends s s' [(c, r)]"
  using engine_call_history engine_call_frame by (simp add: extends_def)

lemma containers_get_Inl:
  assumes "containers_get key s = (Inl x, s')"
  shows "extends s s' [(Get key, Raised x)]"
proof -
  obtain r s1 where ec: "engine_call (Get key) s = (r, s1)" by (cases "engine_call (Get key) s")
  then obtain e1 where "invoke (Get key) (docker s) = (r, e1)"
    by (auto simp: engine_call_def split: prod.splits)
  from invoke_Get_kind [OF this] assms ec engine_call_extends [OF ec]
  show ?thesis by (auto simp: containers_get_def)
qed

lemma containers_get_Inr:
  assumes "containers_get key s = (Inr h, s')"
  shows "extends s s' [(Get key, Handle (h_id h) (h_status h))]"
proof -
  obtain r s1 where ec: "engine_call (Get key) s = (r, s1)" by (cases "engine_call (Get key) s")
  with assms engine_call_extends [OF ec] show ?thesis
    by (cases r) (auto simp: containers_get_def)
qed

lemma sandbox_exec_cases:
  assumes "sandbox_exec k cmds w s = (res, s')"
  shows "(\<not> docker_available s \<and> res = Failure DockerUnavailable \<and> s' = s)
       \<or> (docker_available s
          \<and> (\<exists>x. res = Failure (OperationFailed x) \<and> extends s s' [(Get k, Raised x)]))
       \<or> (docker_available s
          \<and> (\<exists>i st hb h. extends s s' ((Get k, Handle i st) # hb @ h) \<and> quiet hb \<and> no_pip hb
               \<and> (case res of
                    Success rs \<Rightarrow> batch_ok w cmds rs h
                  | Failure e \<Rightarrow> (\<exists>x. e = OperationFailed x \<and> batch_broken w x h))))"
proof (cases "docker_available s")
  case False
  with assms show ?thesis by (simp add: sandbox_exec_def)
next
  case True
  obtain g s1 where g: "containers_get k s = (g, s1)" by (cases "containers_get k s")
  show ?thesis
  proof (cases g)
    case (Inl x)
    with assms True g have "res = Failure (OperationFailed x)" and "s' = s1"
      by (simp_all add: sandbox_exec_def)
    with containers_get_Inl [of k s x s1] g Inl True show ?thesis by auto
  next
    case (Inr hd)
    from containers_get_Inr [of k s hd s1] g Inr
    have x1: "extends s s1 [(Get k, Handle (h_id hd) (h_status hd))]" by simp
    obtain hb where xb: "extends s1 (bootstrap (h_id hd) s1) hb" and qb: "quiet hb" and nb: "no_pip hb"
      using bootstrap_extends [of s1 "h_id hd"] by blast
    obtain r s2 where rc: "run_commands (h_id hd) w cmds [] (bootstrap (h_id hd) s1) = (r, s2)"
      by (cases "run_commands (h_id hd) w cmds [] (bootstrap (h_id hd) s1)")
    from run_commands_spec [OF rc] obtain h where
      xh: "extends (bootstrap (h_id hd) s1) s2 h" and
      ch: "case r of Inr rs \<Rightarrow> (\<exists>new. rs = [] @ new \<and> batch_ok w cmds new h)
           | Inl x \<Rightarrow> batch_broken w x h"
      by blast
    have s2: "s' = s2" and res: "res = (case r of Inl x \<Rightarrow> Failure (OperationFailed x) | Inr rs \<Rightarrow> Success rs)"
      using assms True g Inr rc by (auto simp: sandbox_exec_def split: sum.splits)
    have xt: "extends s s' ((Get k, Handle (h_id hd) (h_status hd)) # hb @ h)"
      using extends_trans [OF extends_trans [OF x1 xb] xh] s2 by simp
    have "case res of Success rs \<Rightarrow> batch_ok w cmds rs h
          | Failure e \<Rightarrow> (\<exists>x. e = OperationFailed x \<and> batch_broken w x h)"
      using ch res by (cases r) auto
    with xt qb nb True show ?thesis by blast
  qed
qed

lemma shell_calls_Cons_Get: "shell_calls ((Get k, r) # h) = shell_calls h"
  by (simp add: shell_calls_def map_filter_def)


lemma records_not_broken: "records w r sc \<Longrightarrow> \<not> exec_broken sc"
  by (cases sc, cases "snd sc") auto

lemma list_all2_records_not_broken:
  "list_all2 (records w) rs scs \<Longrightarrow> sc \<in> set scs \<Longrightarrow> \<not> exec_broken sc"
  by (induction rule: list_all2_induct) (auto dest: records_not_broken)


lemma extends_new_calls: "extends s s' h \<Longrightarrow> new_calls s s' = h"
  by (simp add: extends_def new_calls_def)


text \<open>
  Claim C9: with a workspace id, no call of the dependency-install step is made, for any
  command, because the prefixed command never starts with \<open>python\<close>.
\<close>

theorem no_install_in_workspace:
  "filter (\<lambda>cr. is_pip_install (fst cr))
     (new_calls s (snd (sandbox_exec k cmds (Some w) s))) = []
   \<and> \<not> startswith (cmd_to_run (Some w) cmd) ''python''"
proof -
  obtain res s' where se: "sandbox_exec k cmds (Some w) s = (res, s')"
    by (cases "sandbox_exec k cmds (Some w) s")
  have "no_pip (new_calls s s')"
    using sandbox_exec_cases [OF se]
  proof (elim disjE conjE exE)
    assume "s' = s"
    then show ?thesis by (simp add: new_calls_def no_pip_def)
  next
    fix x assume "extends s s' [(Get k, Raised x)]"
    from extends_new_calls [OF this] show ?thesis by (simp add: no_pip_def)
  next
    fix i st hb h
    assume x: "extends s s' ((Get k, Handle i st) # hb @ h)" and nb: "no_pip hb"
      and c: "case res of Success rs \<Rightarrow> batch_ok (Some w) cmds rs h
              | Failure e \<Rightarrow> \<exists>x. e = OperationFailed x \<and> batch_broken (Some w) x h"
    have "no_pip h" using c by (cases res) (auto simp: batch_ok_def batch_broken_def)
    with nb extends_new_calls [OF x] show ?thesis by (simp add: no_pip_def)
  qed
  with se show ?thesis by (simp add: no_pip_def not_python_in_workspace)
qed

section \<open>The batch on an example, and when the call fails\<close>


text \<open>
  Claim C8, as stated: \<open>success = False\<close> only on an infrastructure error. This fails:
  the engine is available, the container is found and every call returns, but the
  command prints a byte that is not UTF-8, and the whole batch is reported as failed.
\<close>

theorem undecodable_output_fails_batch:
  "docker_available binary_state
   \<and> fst (sandbox_exec ''c1'' [''cat blob''] None binary_state)
       = Failure (OperationFailed UnicodeDecodeError)
   \<and> new_calls binary_state (snd (sandbox_exec ''c1'' [''cat blob''] None binary_state))
       = [(Get ''c1'', Handle ''c1'' ''running''),
          (Exec ''c1'' [''which'', ''pip''], Ran 0 (Some [0xFF]) None),
          (Exec ''c1'' [''sh'', ''-c'', ''cat blob''], Ran 0 (Some [0xFF]) None)]"
  by (simp add: new_calls_def sandbox_exec_def containers_get_def engine_call_def invoke_def
      binary_state_def no_fault_def one_container_def find_container_def bootstrap_def
      exec_run_def binary_shell_def no_output_def cmd_to_run_def startswith_def
      decode_output_def Let_def)

text \<open>
  Claim C8, amended: \<open>sandbox_exec\<close> returns \<open>success = False\<close> exactly when the engine is
  unavailable, or the container lookup raises, or the engine call of a command raises, or
  the output of a command is not valid UTF-8; the exit codes of the commands play no
  part. A failure carries the error (engine unavailable, or the exception that was
  raised) and no list of results.
\<close>

theorem sandbox_exec_failure:
  assumes "sandbox_exec k cmds w s = (res, s')"
  shows "((\<exists>e. res = Failure e) \<longleftrightarrow>
            (\<not> docker_available s
             \<or> (\<exists>x. (Get k, Raised x) \<in> set (new_calls s s'))
             \<or> list_ex exec_broken (shell_calls (new_calls s s'))))
       \<and> (\<forall>e. res = Failure e \<longrightarrow>
             e = DockerUnavailable
             \<or> (\<exists>x. e = OperationFailed x
                  \<and> ((Get k, Raised x) \<in> set (new_calls s s')
                      \<or> (\<exists>c. (c, Raised x) \<in> set (shell_calls (new_calls s s')))
                      \<or> x = UnicodeDecodeError
                         \<and> list_ex exec_broken (shell_calls (new_calls s s')))))"
  using sandbox_exec_cases [OF assms]
proof (elim disjE conjE exE)
  assume "\<not> docker_available s" and "res = Failure DockerUnavailable"
  then show ?thesis by simp
next
  fix x
  assume a: "docker_available s" "res = Failure (OperationFailed x)"
    and x: "extends s s' [(Get k, Raised x)]"
  from extends_new_calls [OF x] a show ?thesis by simp
next
  fix i st hb h
  assume a: "docker_available s" and x: "extends s s' ((Get k, Handle i st) # hb @ h)"
    and q: "quiet hb"
    and c: "case res of Success rs \<Rightarrow> batch_ok w cmds rs h
            | Failure e \<Rightarrow> \<exists>x. e = OperationFailed x \<and> batch_broken w x h"
  have nc: "new_calls s s' = (Get k, Handle i st) # hb @ h" by (rule extends_new_calls [OF x])
  have sc: "shell_calls (new_calls s s') = shell_calls h"
    using q by (simp add: nc shell_calls_Cons_Get shell_calls_append quiet_def)
  have ng: "\<And>y. (Get k, Raised y) \<notin> set (new_calls s s')"
  proof
    fix y assume "(Get k, Raised y) \<in> set (new_calls s s')"
    then have "(Get k, Raised y) \<in> set hb \<or> (Get k, Raised y) \<in> set h" by (simp add: nc)
    moreover have "\<forall>cr \<in> set hb. \<exists>i argv. fst cr = Exec i argv" using q by (simp add: quiet_def)
    moreover have "\<forall>cr \<in> set h. \<exists>i argv. fst cr = Exec i argv"
      using c by (cases res) (auto simp: batch_ok_def batch_broken_def)
    ultimately show False by fastforce
  qed
  show ?thesis
  proof (cases res)
    case (Success rs)
    with c have "list_all2 (records w) rs (shell_calls h)" by (simp add: batch_ok_def)
    then have "\<not> list_ex exec_broken (shell_calls h)"
      using list_all2_records_not_broken [of w rs "shell_calls h"] by (auto simp: list_ex_iff)
    with Success a ng sc show ?thesis by simp
  next
    case (Failure e)
    with c obtain y where e: "e = OperationFailed y" and b: "batch_broken w y h" by auto
    from b have ne: "shell_calls h \<noteq> []" by (simp add: batch_broken_def)
    then have mem: "last (shell_calls h) \<in> set (shell_calls h)" by simp
    have br: "exec_broken (last (shell_calls h))"
      using b by (cases "last (shell_calls h)") (auto simp: batch_broken_def)
    from mem br have le: "list_ex exec_broken (shell_calls h)" by (auto simp: list_ex_iff)
    have "(\<exists>c. (c, Raised y) \<in> set (shell_calls h))
          \<or> y = UnicodeDecodeError \<and> list_ex exec_broken (shell_calls h)"
    proof (cases "snd (last (shell_calls h)) = Raised y")
      case True
      then have "(fst (last (shell_calls h)), Raised y) \<in> set (shell_calls h)"
        using mem by (metis prod.collapse)
      then show ?thesis by blast
    next
      case False
      with b le show ?thesis by (auto simp: batch_broken_def)
    qed
    with Failure e le sc show ?thesis by auto
  qed
qed

theorem sandbox_exec_failure_witness:
  "sandbox_exec ''c1'' [''false''] None plain_state
     = (Success [\<lparr>command = ''false'', exit_code = 1, stdout = [], stderr = [], success = False\<rparr>],
        snd (sandbox_exec ''c1'' [''false''] None plain_state))
   \<and> docker_available plain_state
   \<and> \<not> list_ex exec_broken (shell_calls (new_calls plain_state
          (snd (sandbox_exec ''c1'' [''false''] None plain_state))))"
proof -
  let ?rs = "[\<lparr>command = ''false'', exit_code = 1, stdout = [], stderr = [], success = False\<rparr>]"
  let ?s' = "snd (sandbox_exec ''c1'' [''false''] None plain_state)"
  have "fst (sandbox_exec ''c1'' [''false''] None plain_state) = Success ?rs"
    by (simp add: sandbox_exec_def containers_get_def engine_call_def invoke_def plain_state_def
        no_fault_def one_container_def find_container_def bootstrap_def exec_run_def
        plain_shell_def no_output_def cmd_to_run_def startswith_def decode_output_def Let_def)
  then have h: "sandbox_exec ''c1'' [''false''] None plain_state = (Success ?rs, ?s')"
    by (simp add: prod_eq_iff)
  show ?thesis
    using h sandbox_exec_failure [OF h] by blast
qed

section \<open>Stopping a container and cleaning a workspace\<close>

lemma invoke_unit_kind:
  "c = Stop i t \<or> c = Remove i v \<Longrightarrow> invoke c e = (r, e')
     \<Longrightarrow> (\<exists>x. r = Raised x) \<or> r = Done"
  by (auto simp: invoke_def split: option.splits prod.splits)

lemma unit_call_Inr:
  assumes "unit_call c s = (Inr u, s')"
  shows "extends s s' [(c, Done)]"
proof -
  obtain r s1 where e: "engine_call c s = (r, s1)" by (cases "engine_call c s")
  with assms have "r = Done \<and> s1 = s'"
    by (cases r) (simp_all add: unit_call_def)
  with engine_call_extends [OF e] show ?thesis by simp
qed

lemma unit_call_Inl:
  assumes "c = Stop i t \<or> c = Remove i v" and "unit_call c s = (Inl x, s')"
  shows "extends s s' [(c, Raised x)]"
proof -
  obtain r s1 where e: "engine_call c s = (r, s1)" by (cases "engine_call c s")
  obtain e1 where i: "invoke c (docker s) = (r, e1)"
    using e by (auto simp: engine_call_def split: prod.splits)
  from invoke_unit_kind [OF assms(1) i] have "(\<exists>y. r = Raised y) \<or> r = Done" .
  with assms(2) e have "r = Raised x \<and> s1 = s'"
    by (auto simp: unit_call_def)
  with engine_call_extends [OF e] show ?thesis by simp
qed

lemma find_Some_holds: "find P xs = Some x \<Longrightarrow> P x \<and> x \<in> set xs"
  by (induction xs) (auto split: if_splits)

lemma find_container_self:
  "find_container k cs = Some c \<Longrightarrow> find_container (cid c) cs \<noteq> None"
  by (auto simp: find_container_def find_None_iff dest: find_Some_holds)

lemma find_container_set_status:
  "(find_container key (set_status j st cs) = None) = (find_container key cs = None)"
  by (induction cs) (simp_all add: find_container_def set_status_def)

lemma find_container_cid:
  "find_container key cs = Some c \<Longrightarrow> cid c = key \<or> cname c = Some key"
  by (auto simp: find_container_def dest: find_Some_holds)







lemma sandbox_stop_cases:
  assumes "docker_available s" and "\<not> (p \<or> Some k = persistent_container_id s)"
    and "sandbox_stop k p s = (res, s')"
  shows "(\<exists>x. res = Failure (OperationFailed x) \<and> new_calls s s' = [(Get k, Raised x)])
       \<or> (\<exists>i st x. res = Failure (OperationFailed x)
             \<and> new_calls s s' = [(Get k, Handle i st), (Stop i 10, Raised x)])
       \<or> (\<exists>i st x. res = Failure (OperationFailed x)
             \<and> new_calls s s' = [(Get k, Handle i st), (Stop i 10, Done),
                                 (Remove i True, Raised x)])
       \<or> (\<exists>i st. res = Success ()
             \<and> new_calls s s' = [(Get k, Handle i st), (Stop i 10, Done),
                                 (Remove i True, Done)])"
proof (cases "containers_get k s")
  case (Pair g s1)
  show ?thesis
  proof (cases g)
    case (Inl x)
    with Pair assms have "res = Failure (OperationFailed x)" and "s' = s1"
      by (simp_all add: sandbox_stop_def)
    moreover have "extends s s1 [(Get k, Raised x)]"
      using Pair Inl by (simp add: containers_get_Inl)
    ultimately show ?thesis by (simp add: extends_new_calls)
  next
    case (Inr h)
    have g: "extends s s1 [(Get k, Handle (h_id h) (h_status h))]"
      using Pair Inr by (simp add: containers_get_Inr)
    obtain r s2 where x: "unit_call (Stop (h_id h) 10) s1 = (r, s2)"
      by (cases "unit_call (Stop (h_id h) 10) s1")
    show ?thesis
    proof (cases r)
      case (Inl y)
      with Pair Inr x assms have "res = Failure (OperationFailed y)" and "s' = s2"
        by (simp_all add: sandbox_stop_def)
      moreover have "extends s1 s2 [(Stop (h_id h) 10, Raised y)]"
        using x Inl unit_call_Inl [of "Stop (h_id h) 10" "h_id h" 10 _ s1 y s2] by simp
      ultimately show ?thesis
        using extends_new_calls [OF extends_trans [OF g]] by fastforce
    next
      case stopped: (Inr u)
      have st: "extends s1 s2 [(Stop (h_id h) 10, Done)]"
        using x stopped unit_call_Inr [of "Stop (h_id h) 10" s1 u s2] by simp
      have g2: "extends s s2 [(Get k, Handle (h_id h) (h_status h)), (Stop (h_id h) 10, Done)]"
        using extends_trans [OF g st] by simp
      obtain r' s3 where y: "unit_call (Remove (h_id h) True) s2 = (r', s3)"
        by (cases "unit_call (Remove (h_id h) True) s2")
      show ?thesis
      proof (cases r')
        case (Inl z)
        with Pair Inr x stopped y assms have "res = Failure (OperationFailed z)" and "s' = s3"
          by (simp_all add: sandbox_stop_def)
        moreover have "extends s2 s3 [(Remove (h_id h) True, Raised z)]"
          using y Inl unit_call_Inl [of "Remove (h_id h) True" "h_id h" _ True s2 z s3] by simp
        ultimately show ?thesis
          using extends_new_calls [OF extends_trans [OF g2]] by fastforce
      next
        case removed: (Inr u')
        with Pair Inr x stopped y assms have "res = Success ()" and "s' = s3"
          by (simp_all add: sandbox_stop_def)
        moreover have "extends s2 s3 [(Remove (h_id h) True, Done)]"
          using y removed unit_call_Inr [of "Remove (h_id h) True" s2 u' s3] by simp
        ultimately show ?thesis
          using extends_new_calls [OF extends_trans [OF g2]] by fastforce
      qed
    qed
  qed
qed

lemma sandbox_stop_no_fault:
  assumes "docker_available s" and "\<not> (p \<or> Some k = persistent_container_id s)"
    and "find_container k (containers (docker s)) = Some c"
    and "\<forall>h q. fault (docker s) h q = None"
  shows "fst (sandbox_stop k p s) = Success ()"
  using assms find_container_self [OF assms(3)]
  by (auto simp: sandbox_stop_def containers_get_def unit_call_def engine_call_def
      invoke_def Let_def find_container_set_status split: prod.splits option.splits)

lemma sandbox_stop_available:
  assumes "docker_available s" and "sandbox_stop k p s = (res, s')"
  shows "(p \<or> Some k = persistent_container_id s \<longrightarrow> res = Success () \<and> s' = s)
       \<and> (\<not> (p \<or> Some k = persistent_container_id s) \<longrightarrow>
            (\<exists>x. res = Failure (OperationFailed x) \<and> new_calls s s' = [(Get k, Raised x)])
          \<or> (\<exists>i st x. res = Failure (OperationFailed x)
                \<and> new_calls s s' = [(Get k, Handle i st), (Stop i 10, Raised x)])
          \<or> (\<exists>i st x. res = Failure (OperationFailed x)
                \<and> new_calls s s' = [(Get k, Handle i st), (Stop i 10, Done),
                                    (Remove i True, Raised x)])
          \<or> (\<exists>i st. res = Success ()
                \<and> new_calls s s' = [(Get k, Handle i st), (Stop i 10, Done),
                                    (Remove i True, Done)]))
       \<and> (\<not> (p \<or> Some k = persistent_container_id s)
            \<and> find_container k (containers (docker s)) \<noteq> None
            \<and> (\<forall>h q. fault (docker s) h q = None)
          \<longrightarrow> res = Success ())"
proof (cases "p \<or> Some k = persistent_container_id s")
  case True
  with assms show ?thesis by (auto simp: sandbox_stop_def)
next
  case False
  have d: "find_container k (containers (docker s)) \<noteq> None
             \<and> (\<forall>h q. fault (docker s) h q = None)
           \<longrightarrow> res = Success ()"
  proof (intro impI, elim conjE)
    assume n: "find_container k (containers (docker s)) \<noteq> None"
      and f: "\<forall>h q. fault (docker s) h q = None"
    from n obtain c where "find_container k (containers (docker s)) = Some c" by auto
    from sandbox_stop_no_fault [OF assms(1) False this f] assms(2)
    show "res = Success ()" by simp
  qed
  from sandbox_stop_cases [OF assms(1) False assms(2)] d False show ?thesis by blast
qed


text \<open>
  Claim C6: \<open>sandbox_stop\<close> on the persistent environment (flag set, or the identity
  equal to the cached one) leaves the whole state as it is: no engine call is made, so
  nothing is stopped or removed; and it reports success (unless the engine is
  unavailable, which every operation reports as its error). For any other container it
  looks the container up, stops it with a timeout of 10 seconds and then removes it with
  its volumes, in this order, each step only when the one before returned; it reports
  success exactly when all three returned, which they do when the container exists and
  the engine raises nothing.
\<close>

theorem sandbox_stop_spares_persistent:
  assumes "sandbox_stop k p s = (res, s')"
  shows "(\<not> docker_available s \<longrightarrow> res = Failure DockerUnavailable \<and> s' = s)
       \<and> (p \<or> Some k = persistent_container_id s \<longrightarrow>
            s' = s \<and> (docker_available s \<longrightarrow> res = Success ()))
       \<and> (docker_available s \<and> \<not> (p \<or> Some k = persistent_container_id s) \<longrightarrow>
            (\<exists>x. res = Failure (OperationFailed x) \<and> new_calls s s' = [(Get k, Raised x)])
          \<or> (\<exists>i st x. res = Failure (OperationFailed x)
                \<and> new_calls s s' = [(Get k, Handle i st), (Stop i 10, Raised x)])
          \<or> (\<exists>i st x. res = Failure (OperationFailed x)
                \<and> new_calls s s' = [(Get k, Handle i st), (Stop i 10, Done),
                                    (Remove i True, Raised x)])
          \<or> (\<exists>i st. res = Success ()
                \<and> new_calls s s' = [(Get k, Handle i st), (Stop i 10, Done),
                                    (Remove i True, Done)]))
       \<and> (docker_available s \<and> \<not> (p \<or> Some k = persistent_container_id s)
            \<and> find_container k (containers (docker s)) \<noteq> None
            \<and> (\<forall>h q. fault (docker s) h q = None)
          \<longrightarrow> res = Success ())"
proof (cases "docker_available s")
  case False
  with assms show ?thesis by (simp add: sandbox_stop_def)
next
  case True
  from sandbox_stop_available [OF True assms] True show ?thesis by blast
qed

theorem sandbox_stop_spares_persistent_witness:
  "docker_available plain_state
   \<and> sandbox_stop ''c1'' True plain_state = (Success (), plain_state)
   \<and> fst (sandbox_stop ''c1'' False plain_state) = Success ()
   \<and> new_calls plain_state (snd (sandbox_stop ''c1'' False plain_state))
       = [(Get ''c1'', Handle ''c1'' ''running''), (Stop ''c1'' 10, Done),
          (Remove ''c1'' True, Done)]
   \<and> containers (docker (snd (sandbox_stop ''c1'' False plain_state))) = []"
proof -
  have a: "docker_available plain_state" by (simp add: plain_state_def)
  have h: "sandbox_stop ''c1'' True plain_state
           = (fst (sandbox_stop ''c1'' True plain_state),
              snd (sandbox_stop ''c1'' True plain_state))"
    by simp
  from a sandbox_stop_spares_persistent [OF h]
  have p: "fst (sandbox_stop ''c1'' True plain_state) = Success ()
           \<and> snd (sandbox_stop ''c1'' True plain_state) = plain_state"
    by simp
  have q: "fst (sandbox_stop ''c1'' False plain_state) = Success ()
       \<and> new_calls plain_state (snd (sandbox_stop ''c1'' False plain_state))
           = [(Get ''c1'', Handle ''c1'' ''running''), (Stop ''c1'' 10, Done),
              (Remove ''c1'' True, Done)]
       \<and> containers (docker (snd (sandbox_stop ''c1'' False plain_state))) = []"
    by (simp add: new_calls_def sandbox_stop_def containers_get_def unit_call_def
        engine_call_def invoke_def plain_state_def no_fault_def one_container_def
        find_container_def set_status_def Let_def)
  from a p q show ?thesis by (simp add: prod_eq_iff)
qed

section \<open>Initialisation with an exited container, and a missing local file\<close>

text \<open>
  Claim C5 at a state in which the container with the fixed name exists but has exited and
  nothing is cached: \<open>sandbox_initialize\<close> returns that container after two engine calls,
  the lookup by name and the creation of the workspace directory. It does not start the
  container and does not cache its identity; the container is still not running
  afterwards. \<open>ensure_persistent_container\<close>, called in the same state, starts the
  container and caches its identity. When the engine refuses to run a command in the
  exited container, \<open>sandbox_initialize\<close> fails after the same two calls, again without
  a start.
\<close>

theorem sandbox_initialize_skips_start:
  "sandbox_initialize DEFAULT_IMAGE True first_workspace stopped_state
     = (Success \<lparr>env_container_id = ''p1'', env_workspace_id = Some ''w1'',
                 env_workspace_path = Some ''/app/workspaces/w1'', env_mode = ''persistent''\<rparr>,
        snd (sandbox_initialize DEFAULT_IMAGE True first_workspace stopped_state))
   \<and> new_calls stopped_state
        (snd (sandbox_initialize DEFAULT_IMAGE True first_workspace stopped_state))
       = [(Get ''code_sandbox_persistent'', Handle ''p1'' ''exited''),
          (Exec ''p1'' [''mkdir'', ''-p'', ''/app/workspaces/w1''], Ran 0 None None)]
   \<and> persistent_container_id
        (snd (sandbox_initialize DEFAULT_IMAGE True first_workspace stopped_state)) = None
   \<and> map cstatus (containers (docker
        (snd (sandbox_initialize DEFAULT_IMAGE True first_workspace stopped_state))))
       = [''exited'']
   \<and> fst (ensure_persistent_container stopped_state) = Inr ''p1''
   \<and> new_calls stopped_state (snd (ensure_persistent_container stopped_state))
       = [(Get ''code_sandbox_persistent'', Handle ''p1'' ''exited''), (Start ''p1'', Done)]
   \<and> persistent_container_id (snd (ensure_persistent_container stopped_state)) = Some ''p1''
   \<and> map cstatus (containers (docker (snd (ensure_persistent_container stopped_state))))
       = [''running'']
   \<and> fst (sandbox_initialize DEFAULT_IMAGE True first_workspace refusing_state)
       = Failure (OperationFailed APIError)
   \<and> new_calls refusing_state
        (snd (sandbox_initialize DEFAULT_IMAGE True first_workspace refusing_state))
       = [(Get ''code_sandbox_persistent'', Handle ''p1'' ''exited''),
          (Exec ''p1'' [''mkdir'', ''-p'', ''/app/workspaces/w1''], Raised APIError)]"
  by (simp add: prod_eq_iff new_calls_def sandbox_initialize_def use_persistent_container_def
      refusing_state_def refuse_exec_def
      ensure_persistent_container_def lookup_by_name_def containers_get_def exec_run_def
      unit_call_def engine_call_def invoke_def stopped_state_def stopped_container_def
      no_fault_def plain_shell_def find_container_def PERSISTENT_CONTAINER_NAME_def
      persistent_environment_def first_workspace_def set_status_def Let_def)

text \<open>
  Claim C3, as stated: with a local source path that does not exist, \<open>copy_file\<close> issues no
  engine call and reports that the local file is missing. This fails: the container is
  looked up first, so the log holds that call, and when the lookup raises, its exception
  is what the call reports.
\<close>

theorem copy_file_looks_up_first:
  "\<not> os_path_exists ''missing.txt'' plain_state
   \<and> docker_available plain_state
   \<and> new_calls plain_state (snd (copy_file ''c1'' ''missing.txt'' None None plain_state))
       = [(Get ''c1'', Handle ''c1'' ''running'')]
   \<and> copy_file ''gone'' ''missing.txt'' None None plain_state
       = (Failure (OperationFailed NotFound),
          plain_state\<lparr>docker := (docker plain_state)\<lparr>history := [(Get ''gone'', Raised NotFound)]\<rparr>\<rparr>)"
  by (simp add: new_calls_def copy_file_def os_path_exists_def containers_get_def
      engine_call_def invoke_def plain_state_def no_fault_def one_container_def
      find_container_def Let_def)

text \<open>
  Claim C3, amended: with a local source path that does not exist, \<open>copy_file\<close> returns
  \<open>success = False\<close> and makes at most one engine call, the lookup of the container:
  none when the engine is unavailable (the error says so); when the lookup raises, its
  exception is reported; when the lookup returns, the error is that the local file is
  missing. No command is run in the container, nothing is uploaded, and the program
  variables and the local files are unchanged.
\<close>

theorem copy_file_missing_local:
  assumes "\<not> os_path_exists f s" and "copy_file k f w d s = (res, s')"
  shows "(\<not> docker_available s \<and> res = Failure DockerUnavailable \<and> s' = s)
       \<or> (docker_available s
          \<and> (\<exists>x. res = Failure (OperationFailed x) \<and> extends s s' [(Get k, Raised x)]))
       \<or> (docker_available s
          \<and> (\<exists>i st. res = Failure (LocalFileMissing f) \<and> extends s s' [(Get k, Handle i st)]))"
proof (cases "docker_available s")
  case False
  with assms(2) show ?thesis by (simp add: copy_file_def)
next
  case True
  obtain g s1 where p: "containers_get k s = (g, s1)" by (cases "containers_get k s")
  show ?thesis
  proof (cases g)
    case (Inl x)
    with p assms(2) True have "res = Failure (OperationFailed x)" and "s' = s1"
      by (simp_all add: copy_file_def)
    moreover have "extends s s1 [(Get k, Raised x)]"
      using p Inl by (simp add: containers_get_Inl)
    ultimately show ?thesis using True by blast
  next
    case (Inr h)
    have e: "extends s s1 [(Get k, Handle (h_id h) (h_status h))]"
      using p Inr by (simp add: containers_get_Inr)
    then have "\<not> os_path_exists f s1"
      using assms(1) by (simp add: extends_def os_path_exists_def)
    with p Inr assms(2) True have "res = Failure (LocalFileMissing f)" and "s' = s1"
      by (simp_all add: copy_file_def)
    with e True show ?thesis by blast
  qed
qed

theorem copy_file_missing_local_witness:
  "\<not> os_path_exists ''missing.txt'' plain_state
   \<and> fst (copy_file ''c1'' ''missing.txt'' None None plain_state)
       = Failure (LocalFileMissing ''missing.txt'')
   \<and> (\<exists>i st. extends plain_state (snd (copy_file ''c1'' ''missing.txt'' None None plain_state))
                [(Get ''c1'', Handle i st)])"
proof -
  have a: "\<not> os_path_exists ''missing.txt'' plain_state"
    by (simp add: os_path_exists_def plain_state_def)
  have b: "fst (copy_file ''c1'' ''missing.txt'' None None plain_state)
           = Failure (LocalFileMissing ''missing.txt'')"
    by (simp add: copy_file_def os_path_exists_def containers_get_def
        engine_call_def invoke_def plain_state_def no_fault_def one_container_def
        find_container_def Let_def)
  then have h: "copy_file ''c1'' ''missing.txt'' None None plain_state
                = (Failure (LocalFileMissing ''missing.txt''),
                   snd (copy_file ''c1'' ''missing.txt'' None None plain_state))"
    by (simp add: prod_eq_iff)
  from copy_file_missing_local [OF a h] a b show ?thesis by auto
qed

section \<open>Writing a file and reading it back\<close>

lemma os_path_basename_plain:
  "CHR ''/'' \<notin> set n \<Longrightarrow> os_path_basename (a @ CHR ''/'' # n) = n"
proof -
  assume "CHR ''/'' \<notin> set n"
  then have "takeWhile (\<lambda>c. c \<noteq> CHR ''/'') (rev n @ CHR ''/'' # rev a) = rev n"
    by (subst takeWhile_append2) auto
  then show ?thesis by (simp add: os_path_basename_def)
qed

lemma os_path_dirname_plain: "CHR ''/'' \<notin> set n \<Longrightarrow> os_path_dirname n = []"
proof -
  assume "CHR ''/'' \<notin> set n"
  then have "dropWhile (\<lambda>c. c \<noteq> CHR ''/'') (rev n) = []" by auto
  then show ?thesis by (simp add: os_path_dirname_def)
qed

lemma split_path_plain: "CHR ''/'' \<notin> set n \<Longrightarrow> split_path n = [n]"
  by (induction n) auto

lemma find_container_map:
  assumes "\<And>c'. cid (f c') = cid c' \<and> cname (f c') = cname c'"
  shows "find_container key (map f cs) = map_option f (find_container key cs)"
  by (induction cs) (simp_all add: find_container_def assms)

lemma resolve_strip_trailing:
  "resolve (if endswith a ''/'' then butlast a else a) = resolve a"
proof (cases "endswith a ''/''")
  case True
  then obtain a' where "a = a' @ ''/''" using endswith_sepD by blast
  then show ?thesis using True resolve_trailing_sep [of a'] by simp
next
  case False
  then show ?thesis by simp
qed

lemma write_file_sandbox_stores:
  assumes "docker_available s" and "\<forall>h q. fault (docker s) h q = None"
    and "find_container k (containers (docker s)) = Some c"
    and "find_container (cid c) (containers (docker s)) = Some c"
    and "utf8_encode content = Some b"
  shows "\<exists>s1. write_file_sandbox k n content (Some w) None now s
              = (Success ((if endswith (''/app/workspaces/'' @ w) ''/''
                           then butlast (''/app/workspaces/'' @ w)
                           else ''/app/workspaces/'' @ w) @ ''/'' @ n), s1)
            \<and> docker_available s1 \<and> (\<forall>h q. fault (docker s1) h q = None)
            \<and> local_files s1 = local_files s \<and> local_dirs s1 = local_dirs s
            \<and> containers (docker s1)
                = map (\<lambda>c'. if cid c' = cid c
                             then c'\<lparr>cfiles :=
                                      (foldl walk
                                         (resolve (if endswith (''/app/workspaces/'' @ w) ''/''
                                                   then butlast (''/app/workspaces/'' @ w)
                                                   else ''/app/workspaces/'' @ w))
                                         (split_path n), b) # cfiles c'\<rparr>
                             else c')
                    (containers (docker s))"
  using assms
  by (simp add: write_file_sandbox_def write_target_dir_def base_dir_def containers_get_def
      exec_run_def unit_call_def engine_call_def invoke_def extract_into_def Let_def
      split: prod.splits)

lemma not_startswith_plain: "CHR ''/'' \<notin> set n \<Longrightarrow> \<not> startswith n ''/''"
  by (cases n) (auto simp: startswith_def)

lemma not_endswith_plain: "CHR ''/'' \<notin> set n \<Longrightarrow> \<not> endswith n ''/''"
proof
  assume a: "CHR ''/'' \<notin> set n" and "endswith n ''/''"
  then obtain a' where "n = a' @ ''/''" using endswith_sepD by blast
  with a show False by simp
qed

lemma copy_file_from_sandbox_fetches:
  assumes "docker_available s" and "\<forall>h q. fault (docker s) h q = None"
    and "find_container k (containers (docker s)) = Some c"
    and "find_container (cid c) (containers (docker s)) = Some c"
    and "map_of (cfiles c) (resolve (''/app/workspaces/'' @ w @ ''/'' @ n)) = Some b"
    and "n \<noteq> []" and "CHR ''/'' \<notin> set n" and "n \<notin> set (local_dirs s)"
    and "n \<noteq> ''.''" and "n \<noteq> ''..''"
  shows "\<exists>s2. copy_file_from_sandbox k n (Some w) None s = (Success (n, length b), s2)
            \<and> map_of (local_files s2) n = Some b"
proof -
  have bn: "os_path_basename ((''/app/workspaces/'' @ w) @ CHR ''/'' # n) = n"
    by (rule os_path_basename_plain [OF assms(7)])
  note facts = assms(1-5) assms(6) assms(8-10) bn [simplified] assms(5) [simplified]
    not_startswith_plain [OF assms(7)] not_endswith_plain [OF assms(7)]
    os_path_dirname_plain [OF assms(7)]
  show ?thesis
    using facts
    by (simp add: copy_file_from_sandbox_def containers_get_def get_archive_def
        engine_call_def invoke_def archive_of_def file_member_def open_wb_def
        write_local_def os_path_getsize_def Let_def split: prod.splits)
qed

text \<open>
  Claim C7, as stated: for every file name and content, writing and then retrieving the
  same name gives the content back. This fails when no workspace id is given: the file is
  written below \<open>/app\<close>, but the name is retrieved as it is, a path that the engine reads
  from the root of the container, so the retrieval fails and no local file is written.
  And a content with a lone surrogate cannot be encoded, so it is not even written.
\<close>

theorem write_then_read_without_workspace:
  "fst (write_file_sandbox ''c1'' ''a.txt'' (text_of ''hello'') None None 0 plain_state)
     = Success ''/app/a.txt''
   \<and> fst (copy_file_from_sandbox ''c1'' ''a.txt'' None None
           (snd (write_file_sandbox ''c1'' ''a.txt'' (text_of ''hello'') None None 0 plain_state)))
     = Failure (OperationFailed NotFound)
   \<and> local_files (snd (copy_file_from_sandbox ''c1'' ''a.txt'' None None
           (snd (write_file_sandbox ''c1'' ''a.txt'' (text_of ''hello'') None None 0 plain_state))))
     = []
   \<and> fst (write_file_sandbox ''c1'' ''a.txt'' [0xD800] (Some ''w1'') None 0 plain_state)
     = Failure (OperationFailed UnicodeEncodeError)"
  by (simp add: write_file_sandbox_def copy_file_from_sandbox_def write_target_dir_def
      base_dir_def containers_get_def exec_run_def unit_call_def get_archive_def
      engine_call_def invoke_def plain_state_def no_fault_def one_container_def
      find_container_def plain_shell_def endswith_def startswith_def text_of_def
      utf8_encode_cp_def extract_into_def archive_of_def resolve_def walk_def
      os_path_basename_def Let_def)

text \<open>
  Claim C7, amended: when both calls are given the same workspace id and no destination
  (neither \<open>dest_dir\<close> nor \<open>local_dest_path\<close>), the file name is a plain name (not empty,
  no separator, not \<open>.\<close> or \<open>..\<close>) that is not a local directory, the content can be
  encoded as UTF-8, and the container exists in an available engine that raises nothing,
  then writing the file and retrieving the same name succeeds, the local file of that
  name holds exactly the encoded content, and the reported size is its length in bytes.
\<close>

theorem write_then_read_in_workspace:
  assumes "docker_available s" and "\<forall>h q. fault (docker s) h q = None"
    and "find_container k (containers (docker s)) = Some c"
    and "find_container (cid c) (containers (docker s)) = Some c"
    and "utf8_encode content = Some b"
    and "n \<noteq> []" and "CHR ''/'' \<notin> set n" and "n \<noteq> ''.''" and "n \<noteq> ''..''"
    and "n \<notin> set (local_dirs s)"
    and "write_file_sandbox k n content (Some w) None now s = (r1, s1)"
    and "copy_file_from_sandbox k n (Some w) None s1 = (r2, s2)"
  shows "r1 = Success ((if endswith (''/app/workspaces/'' @ w) ''/''
                        then butlast (''/app/workspaces/'' @ w)
                        else ''/app/workspaces/'' @ w) @ ''/'' @ n)
       \<and> r2 = Success (n, length b)
       \<and> map_of (local_files s2) n = Some b"
proof -
  let ?td = "if endswith (''/app/workspaces/'' @ w) ''/''
             then butlast (''/app/workspaces/'' @ w) else ''/app/workspaces/'' @ w"
  let ?key = "foldl walk (resolve ?td) (split_path n)"
  let ?f = "\<lambda>c'. if cid c' = cid c then c'\<lparr>cfiles := (?key, b) # cfiles c'\<rparr> else c'"
  from write_file_sandbox_stores [OF assms(1-5), of n w now] assms(11)
  have r1: "r1 = Success (?td @ ''/'' @ n)"
    and av: "docker_available s1" and nf: "\<forall>h q. fault (docker s1) h q = None"
    and ld: "local_dirs s1 = local_dirs s"
    and cs: "containers (docker s1) = map ?f (containers (docker s))"
    by auto
  have pres: "\<And>c'. cid (?f c') = cid c' \<and> cname (?f c') = cname c'" by simp
  have f1: "find_container k (containers (docker s1)) = Some (?f c)"
    unfolding cs using find_container_map [of ?f k, OF pres] assms(3) by simp
  have f2: "find_container (cid (?f c)) (containers (docker s1)) = Some (?f c)"
    unfolding cs using find_container_map [of ?f "cid c", OF pres] assms(4) by simp
  have "resolve ((''/app/workspaces/'' @ w) @ CHR ''/'' # n)
        = foldl walk (resolve (''/app/workspaces/'' @ w)) (split_path n)"
    by (rule resolve_append_sep)
  then have key: "resolve (''/app/workspaces/'' @ w @ ''/'' @ n) = ?key"
    using resolve_strip_trailing [of "''/app/workspaces/'' @ w"] by simp
  have m: "map_of (cfiles (?f c)) (resolve (''/app/workspaces/'' @ w @ ''/'' @ n)) = Some b"
    unfolding key by simp
  from assms(10) ld have nd: "n \<notin> set (local_dirs s1)" by simp
  from copy_file_from_sandbox_fetches [OF av nf f1 f2 m assms(6) assms(7) nd assms(8) assms(9)]
    assms(12)
  have "r2 = Success (n, length b)" and "map_of (local_files s2) n = Some b" by auto
  with r1 show ?thesis by simp
qed

theorem write_then_read_in_workspace_witness:
  "fst (copy_file_from_sandbox ''c1'' ''a.txt'' (Some ''w1'') None
         (snd (write_file_sandbox ''c1'' ''a.txt'' (text_of ''hello'') (Some ''w1'') None 0
                 plain_state)))
     = Success (''a.txt'', 5)
   \<and> map_of (local_files (snd (copy_file_from_sandbox ''c1'' ''a.txt'' (Some ''w1'') None
         (snd (write_file_sandbox ''c1'' ''a.txt'' (text_of ''hello'') (Some ''w1'') None 0
                 plain_state))))) ''a.txt''
     = Some [0x68, 0x65, 0x6C, 0x6C, 0x6F]"
proof -
  let ?c = "\<lparr>cid = ''c1'', cname = None, cstatus = ''running'', cfiles = []\<rparr>"
  let ?W = "write_file_sandbox ''c1'' ''a.txt'' (text_of ''hello'') (Some ''w1'') None 0 plain_state"
  let ?R = "copy_file_from_sandbox ''c1'' ''a.txt'' (Some ''w1'') None (snd ?W)"
  have 1: "docker_available plain_state" by (simp add: plain_state_def)
  have 2: "\<forall>h q. fault (docker plain_state) h q = None"
    by (simp add: plain_state_def no_fault_def)
  have 3: "find_container ''c1'' (containers (docker plain_state)) = Some ?c"
    by (simp add: plain_state_def one_container_def find_container_def)
  have 4: "find_container (cid ?c) (containers (docker plain_state)) = Some ?c"
    by (simp add: plain_state_def one_container_def find_container_def)
  have 5: "utf8_encode (text_of ''hello'') = Some [0x68, 0x65, 0x6C, 0x6C, 0x6F]"
    by (simp add: text_of_def utf8_encode_cp_def)
  have 6: "''a.txt'' \<noteq> []" and 7: "CHR ''/'' \<notin> set ''a.txt''"
    and 8: "''a.txt'' \<noteq> ''.''" and 9: "''a.txt'' \<noteq> ''..''"
    by simp_all
  have 10: "''a.txt'' \<notin> set (local_dirs plain_state)" by (simp add: plain_state_def)
  have 11: "?W = (fst ?W, snd ?W)" by simp
  have 12: "?R = (fst ?R, snd ?R)" by simp
  from write_then_read_in_workspace [OF 1 2 3 4 5 6 7 8 9 10 11 12]
  show ?thesis by simp
qed

end
